theory Spec2Isabelle
  imports Main "HOL-Library.AList"
begin

section \<open>Data model of the cache document (class LocalStorage, in js/auth.js from line 331)\<close>

text \<open>
  A JavaScript object with string keys is the association list of its own properties:
  \<open>map_of\<close> reads an own key, \<open>AList.update\<close> writes one (in place when the key exists,
  appended otherwise) and \<open>AList.delete\<close> is \<^verbatim>\<open>delete ob[k]\<close>. Every top-level key of the
  document may be missing (\<^verbatim>\<open>undefined\<close>), which is \<open>None\<close>; the source tests each one
  before use.
\<close>

type_synonym 'v obj = "(string \<times> 'v) list"

text \<open>
  The objects of the document are made by object literals and by \<^verbatim>\<open>JSON.parse\<close>, so
  their prototype is \<^verbatim>\<open>Object.prototype\<close>. A read \<^verbatim>\<open>ob[k]\<close> that finds no own property
  goes on to the prototype and finds there the twelve names below, each with a truthy
  value (a function; for \<^verbatim>\<open>__proto__\<close> the prototype itself). The values the document
  keeps under its own keys where the source tests a read are objects and arrays, which
  are truthy as well. An assignment \<^verbatim>\<open>ob[k] = v\<close> makes or updates an own property, with
  one exception: for the key \<^verbatim>\<open>__proto__\<close> on an object without an own property of that
  name it is taken by the setter of \<^verbatim>\<open>Object.prototype\<close>, which changes the prototype of
  \<^verbatim>\<open>ob\<close> (or nothing, when \<^verbatim>\<open>v\<close> is no object) and makes no own property.

  The built-in objects themselves are taken as the language defines them. When a read
  gives an inherited value and the source assigns to a property of that value, the
  assignment lands on a built-in object and not in the document; the document is then
  left as it is, and what the assignment does to the built-in object is not followed.
\<close>

definition Object_prototype_names :: "string list" where
  "Object_prototype_names =
     [''constructor'', ''__defineGetter__'', ''__defineSetter__'', ''hasOwnProperty'',
      ''__lookupGetter__'', ''__lookupSetter__'', ''isPrototypeOf'', ''propertyIsEnumerable'',
      ''toString'', ''valueOf'', ''__proto__'', ''toLocaleString'']"

datatype 'v property = Own 'v | Inherited | Absent

definition get_property :: "'v obj \<Rightarrow> string \<Rightarrow> 'v property" where
  "get_property ob k =
     (case map_of ob k of
        Some v \<Rightarrow> Own v
      | None \<Rightarrow> if k \<in> set Object_prototype_names then Inherited else Absent)"

definition truthy :: "'v property \<Rightarrow> bool" where
  "truthy p = (case p of Own v \<Rightarrow> True | Inherited \<Rightarrow> True | Absent \<Rightarrow> False)"

definition assign :: "string \<Rightarrow> 'v \<Rightarrow> 'v obj \<Rightarrow> 'v obj" where
  "assign k v ob =
     (if k = ''__proto__'' \<and> map_of ob k = None then ob else AList.update k v ob)"

text \<open>
  A user record is \<^verbatim>\<open>{password, isAdmin}\<close>; the password is \<open>None\<close> in a record that has
  no such key, as the one the merge of the user list builds from an inherited value.
\<close>

record user =
  password :: "string option"
  isAdmin :: bool

record override =
  adminName :: string
  overrideWeekStart :: string
  stamped :: string

text \<open>
  A queue item is \<^verbatim>\<open>{id, action, payload, timestamp, attempts}\<close>. The action string and
  its payload object are one tagged value: \<^verbatim>\<open>addToSyncQueue\<close> is only ever called with the
  six pairs below, and \<open>unknown_action\<close> stands for any other action string, which
  \<^verbatim>\<open>processSyncQueue\<close> sends to its \<^verbatim>\<open>default\<close> branch.
\<close>

datatype action =
    user_update string user
  | user_delete string
  | plan_update string string "string list"
  | custom_location_add string string string string
  | admin_override string string
  | admin_override_clear
  | unknown_action string

record sync_item =
  item_id :: nat
  act :: action
  timestamp :: string
  attempts :: nat

record doc =
  users :: "user obj option"
  plans :: "string list obj obj option"
  customLocations :: "string obj obj obj option"
  adminOverride :: "override option"
  syncQueue :: "sync_item list option"
  lastSync :: "string option"

definition empty_doc :: doc where
  "empty_doc = \<lparr>users = None, plans = None, customLocations = None,
     adminOverride = None, syncQueue = None, lastSync = None\<rparr>"

text \<open>
  The clock of the browser: \<open>genId k\<close> and \<open>isoNow k\<close> are the values of
  \<^verbatim>\<open>Date.now() + Math.random()\<close> and \<^verbatim>\<open>new Date().toISOString()\<close> at the \<open>k\<close>-th reading.
  The state is the item the browser's Web Storage keeps under \<^verbatim>\<open>STORAGE_KEY\<close> (\<open>None\<close>
  when the key is absent) and the number of clock readings made so far.
\<close>

record platform =
  genId :: "nat \<Rightarrow> nat"
  isoNow :: "nat \<Rightarrow> string"

record store =
  slot :: "doc option"
  tick :: nat

datatype error = Error string

section \<open>Local Store operations\<close>

text \<open>
  The file of the class ends with \<^verbatim>\<open>const localStorage = new LocalStorage()\<close> (line 668).
  The constant is declared in the scope that holds the class, so inside the methods of
  the class the name \<^verbatim>\<open>localStorage\<close> is this constant, the wrapper object, and not the Web
  Storage object of the browser. The wrapper has the field \<^verbatim>\<open>STORAGE_KEY\<close> and the methods
  of the class; \<^verbatim>\<open>getItem\<close> and \<^verbatim>\<open>setItem\<close> are not among them, nor among the names of
  \<^verbatim>\<open>Object.prototype\<close>. So \<^verbatim>\<open>localStorage.getItem(...)\<close> and \<^verbatim>\<open>localStorage.setItem(...)\<close>
  call \<^verbatim>\<open>undefined\<close> and throw a \<^verbatim>\<open>TypeError\<close> (while the constructor runs the constant is
  not yet initialised and the read of the name throws a \<^verbatim>\<open>ReferenceError\<close>); both calls
  stand inside a \<^verbatim>\<open>try\<close>. The item of the Web Storage is neither read nor written.
  Each call is written as the look-up of the method on the wrapper; the branch in which
  the look-up succeeds stands for the Web Storage call that the name suggests.
\<close>

definition LocalStorage_members :: "string list" where
  "LocalStorage_members =
     [''STORAGE_KEY'', ''constructor'', ''initializeStorage'', ''getData'', ''saveData'',
      ''getUsers'', ''setUser'', ''removeUser'', ''getPlansForWeek'', ''setPlan'',
      ''getCustomLocations'', ''addCustomLocation'', ''getAdminOverride'', ''setAdminOverride'',
      ''clearAdminOverride'', ''addToSyncQueue'', ''getSyncQueue'', ''removeSyncItem'',
      ''updateSyncAttempts'', ''setLastSync'', ''getLastSync'', ''clearAll'', ''exportData'',
      ''importData'', ''getStorageInfo'']"

definition localStorage_getItem :: "store \<Rightarrow> error + doc option" where
  "localStorage_getItem s =
     (if ''getItem'' \<in> set (LocalStorage_members @ Object_prototype_names) then Inr (slot s)
      else Inl (Error ''localStorage.getItem is not a function''))"

definition localStorage_setItem :: "doc \<Rightarrow> store \<Rightarrow> error + store" where
  "localStorage_setItem data s =
     (if ''setItem'' \<in> set (LocalStorage_members @ Object_prototype_names)
      then Inr (s\<lparr>slot := Some data\<rparr>)
      else Inl (Error ''localStorage.setItem is not a function''))"

text \<open>
  \<^verbatim>\<open>getData\<close> returns \<^verbatim>\<open>{}\<close> from its \<^verbatim>\<open>catch\<close> block, \<^verbatim>\<open>saveData\<close> returns \<^verbatim>\<open>false\<close> from its.
\<close>

definition getData :: "store \<Rightarrow> doc" where
  "getData s =
     (case localStorage_getItem s of
        Inl error \<Rightarrow> empty_doc
      | Inr None \<Rightarrow> empty_doc
      | Inr (Some data) \<Rightarrow> data)"

definition saveData :: "doc \<Rightarrow> store \<Rightarrow> bool \<times> store" where
  "saveData data s =
     (case localStorage_setItem data s of
        Inl error \<Rightarrow> (False, s)
      | Inr s' \<Rightarrow> (True, s'))"

text \<open>
  The constructor calls \<^verbatim>\<open>initializeStorage\<close>: when \<^verbatim>\<open>getData\<close> gives an object without keys
  it saves the default document with the five seed users, and otherwise the defaults
  overlaid with the keys the document has.
\<close>

definition defaultData :: doc where
  "defaultData =
     \<lparr>users = Some [(''Sahil Sharma'', \<lparr>password = Some ''8371'', isAdmin = False\<rparr>),
                     (''Vijay Kumar'', \<lparr>password = Some ''4926'', isAdmin = False\<rparr>),
                     (''Pawan Gupta'', \<lparr>password = Some ''7149'', isAdmin = False\<rparr>),
                     (''Sunil Suri'', \<lparr>password = Some ''3652'', isAdmin = False\<rparr>),
                     (''Sudhir Kumar'', \<lparr>password = Some ''9211'', isAdmin = True\<rparr>)],
      plans = Some [], customLocations = Some [], adminOverride = None,
      syncQueue = Some [], lastSync = None\<rparr>"

definition initializeStorage :: "store \<Rightarrow> store" where
  "initializeStorage s =
     (let existing = getData s
      in if existing = empty_doc then snd (saveData defaultData s)
         else snd (saveData
           \<lparr>users = (case users existing of None \<Rightarrow> users defaultData | Some v \<Rightarrow> Some v),
            plans = (case plans existing of None \<Rightarrow> plans defaultData | Some v \<Rightarrow> Some v),
            customLocations = (case customLocations existing of
                                 None \<Rightarrow> customLocations defaultData | Some v \<Rightarrow> Some v),
            adminOverride = adminOverride existing,
            syncQueue = (case syncQueue existing of
                           None \<Rightarrow> syncQueue defaultData | Some v \<Rightarrow> Some v),
            lastSync = lastSync existing\<rparr> s))"

definition getUsers :: "store \<Rightarrow> user obj" where
  "getUsers s = (case users (getData s) of None \<Rightarrow> [] | Some us \<Rightarrow> us)"

definition getSyncQueue :: "store \<Rightarrow> sync_item list" where
  "getSyncQueue s = (case syncQueue (getData s) of None \<Rightarrow> [] | Some q \<Rightarrow> q)"

definition addToSyncQueue :: "platform \<Rightarrow> action \<Rightarrow> store \<Rightarrow> store" where
  "addToSyncQueue P a s =
     (let data = getData s;
          q = (case syncQueue data of None \<Rightarrow> [] | Some q \<Rightarrow> q);
          item = \<lparr>item_id = genId P (tick s), act = a,
                  timestamp = isoNow P (tick s), attempts = 0\<rparr>;
          data' = data\<lparr>syncQueue := Some (q @ [item])\<rparr>
      in snd (saveData data' (s\<lparr>tick := Suc (tick s)\<rparr>)))"

text \<open>
  The mutating operations return \<^verbatim>\<open>undefined\<close> and have no \<^verbatim>\<open>throw\<close>: the result of
  \<^verbatim>\<open>saveData\<close> is dropped. Their value is \<open>Inr ()\<close> on every path.
\<close>

definition setUser :: "platform \<Rightarrow> string \<Rightarrow> user \<Rightarrow> store \<Rightarrow> (error + unit) \<times> store" where
  "setUser P name userData s =
     (let data = getData s;
          us = (case users data of None \<Rightarrow> [] | Some us \<Rightarrow> us);
          data' = data\<lparr>users := Some (assign name userData us)\<rparr>;
          s1 = snd (saveData data' s)
      in (Inr (), addToSyncQueue P (user_update name userData) s1))"

text \<open>
  The document \<^verbatim>\<open>removeUser\<close> builds before its one call of \<^verbatim>\<open>saveData\<close>. The two tests
  read through the prototype; \<^verbatim>\<open>delete\<close> removes an own property and does nothing when
  there is none.
\<close>

definition removeUser_data :: "string \<Rightarrow> doc \<Rightarrow> doc" where
  "removeUser_data name data =
     (let d1 = (case users data of None \<Rightarrow> data
                | Some us \<Rightarrow> data\<lparr>users := Some (AList.delete name us)\<rparr>);
          d2 = (case plans d1 of None \<Rightarrow> d1
                | Some ps \<Rightarrow> d1\<lparr>plans := Some (map (\<lambda>(weekId, wk).
                      (weekId, if truthy (get_property wk name) then AList.delete name wk else wk))
                    ps)\<rparr>);
          d3 = (case customLocations d2 of None \<Rightarrow> d2
                | Some cl \<Rightarrow> if truthy (get_property cl name)
                            then d2\<lparr>customLocations := Some (AList.delete name cl)\<rparr> else d2)
      in d3)"

definition removeUser :: "platform \<Rightarrow> string \<Rightarrow> store \<Rightarrow> (error + unit) \<times> store" where
  "removeUser P name s =
     (let data' = removeUser_data name (getData s);
          s1 = snd (saveData data' s)
      in (Inr (), addToSyncQueue P (user_delete name) s1))"

text \<open>
  \<^verbatim>\<open>setPlan\<close>: a week that is an own key has its object updated in place, a week that no
  read finds gets a new object, and under a week key that only the prototype answers
  the plan is assigned to the inherited value and the document keeps no plan.
\<close>

definition setPlan ::
  "platform \<Rightarrow> string \<Rightarrow> string \<Rightarrow> string list \<Rightarrow> store \<Rightarrow> (error + unit) \<times> store" where
  "setPlan P weekStartId userName locations s =
     (let data = getData s;
          ps = (case plans data of None \<Rightarrow> [] | Some ps \<Rightarrow> ps);
          ps' = (case get_property ps weekStartId of
                   Own wk \<Rightarrow> AList.update weekStartId (assign userName locations wk) ps
                 | Absent \<Rightarrow> AList.update weekStartId (assign userName locations []) ps
                 | Inherited \<Rightarrow> ps);
          data' = data\<lparr>plans := Some ps'\<rparr>;
          s1 = snd (saveData data' s)
      in (Inr (), addToSyncQueue P (plan_update weekStartId userName locations) s1))"

definition addCustomLocation ::
  "platform \<Rightarrow> string \<Rightarrow> string \<Rightarrow> string \<Rightarrow> string \<Rightarrow> store \<Rightarrow> (error + unit) \<times> store" where
  "addCustomLocation P userName weekStartId dayDate location s =
     (let data = getData s;
          cl = (case customLocations data of None \<Rightarrow> [] | Some cl \<Rightarrow> cl);
          withDay = (\<lambda>byWeek.
            (case get_property byWeek weekStartId of
               Own byDay \<Rightarrow> AList.update weekStartId (assign dayDate location byDay) byWeek
             | Absent \<Rightarrow> AList.update weekStartId (assign dayDate location []) byWeek
             | Inherited \<Rightarrow> byWeek));
          cl' = (case get_property cl userName of
                   Own byWeek \<Rightarrow> AList.update userName (withDay byWeek) cl
                 | Absent \<Rightarrow> AList.update userName (withDay []) cl
                 | Inherited \<Rightarrow> cl);
          data' = data\<lparr>customLocations := Some cl'\<rparr>;
          s1 = snd (saveData data' s)
      in (Inr (), addToSyncQueue P
            (custom_location_add userName weekStartId dayDate location) s1))"

definition setAdminOverride ::
  "platform \<Rightarrow> string \<Rightarrow> string \<Rightarrow> store \<Rightarrow> (error + unit) \<times> store" where
  "setAdminOverride P admin weekStart s =
     (let data = getData s;
          data' = data\<lparr>adminOverride := Some \<lparr>adminName = admin,
                     overrideWeekStart = weekStart, stamped = isoNow P (tick s)\<rparr>\<rparr>;
          s1 = snd (saveData data' (s\<lparr>tick := Suc (tick s)\<rparr>))
      in (Inr (), addToSyncQueue P (admin_override admin weekStart) s1))"

definition clearAdminOverride :: "platform \<Rightarrow> store \<Rightarrow> (error + unit) \<times> store" where
  "clearAdminOverride P s =
     (let data = getData s;
          data' = data\<lparr>adminOverride := None\<rparr>;
          s1 = snd (saveData data' s)
      in (Inr (), addToSyncQueue P admin_override_clear s1))"

text \<open>
  \<^verbatim>\<open>removeSyncItem\<close> and \<^verbatim>\<open>updateSyncAttempts\<close> write only when the queue is there
  (an empty array is truthy); \<^verbatim>\<open>find\<close> returns the first item with the id.
\<close>

definition removeSyncItem :: "nat \<Rightarrow> store \<Rightarrow> store" where
  "removeSyncItem itemId s =
     (let data = getData s
      in case syncQueue data of None \<Rightarrow> s
         | Some q \<Rightarrow> snd (saveData
             (data\<lparr>syncQueue := Some (filter (\<lambda>item. item_id item \<noteq> itemId) q)\<rparr>) s))"

fun setFirstAttempts :: "nat \<Rightarrow> nat \<Rightarrow> sync_item list \<Rightarrow> sync_item list" where
  "setFirstAttempts itemId n [] = []"
| "setFirstAttempts itemId n (item # q) =
     (if item_id item = itemId then item\<lparr>attempts := n\<rparr> # q
      else item # setFirstAttempts itemId n q)"

definition updateSyncAttempts :: "nat \<Rightarrow> nat \<Rightarrow> store \<Rightarrow> store" where
  "updateSyncAttempts itemId n s =
     (let data = getData s
      in case syncQueue data of None \<Rightarrow> s
         | Some q \<Rightarrow>
             if itemId \<in> set (map item_id q)
             then snd (saveData (data\<lparr>syncQueue := Some (setFirstAttempts itemId n q)\<rparr>) s)
             else s)"

definition setLastSync :: "platform \<Rightarrow> store \<Rightarrow> store" where
  "setLastSync P s =
     (let data = getData s;
          data' = data\<lparr>lastSync := Some (isoNow P (tick s))\<rparr>
      in snd (saveData data' (s\<lparr>tick := Suc (tick s)\<rparr>)))"


definition planOf :: "doc \<Rightarrow> string \<Rightarrow> string \<Rightarrow> string list option" where
  "planOf d w n = (case plans d of None \<Rightarrow> None
     | Some ps \<Rightarrow> (case map_of ps w of None \<Rightarrow> None | Some wk \<Rightarrow> map_of wk n))"


section \<open>Remote Gateway (class APIClient, in unnamed/part_003)\<close>

text \<open>
  The response envelope \<^verbatim>\<open>{ok, message?, users?}\<close>; \<open>ok\<close> is the truthiness of the field.
  A request is the path after \<^verbatim>\<open>baseURL\<close> with the object given to \<^verbatim>\<open>JSON.stringify\<close>,
  which leaves out a key whose value is \<^verbatim>\<open>undefined\<close>.
\<close>

record listed_user =
  name :: string
  listedAdmin :: bool

record envelope =
  ok :: bool
  message :: "string option"
  listed :: "listed_user list option"

datatype body =
    plans_set_body string string "string list"
  | users_add_body string string bool
  | users_add_body_no_password string bool
  | users_delete_body string
  | custom_add_body string string string string
  | override_body "string option" "string option"

datatype request = GET string | POST string body

text \<open>
  What one call of the platform's \<^verbatim>\<open>fetch\<close> gives: a rejected promise, or a response with
  its status and its body (\<open>None\<close> when \<^verbatim>\<open>response.json()\<close> rejects). The network and the
  server are a parameter \<open>fetch\<close> of the client, a transition on an environment \<open>'e\<close>.
\<close>

datatype fetch_outcome = NetworkError string | Response nat "envelope option"

definition digit_char :: "nat \<Rightarrow> char" where
  "digit_char d = ''0123456789'' ! d"

function decimal :: "nat \<Rightarrow> string" where
  "decimal n = (if n < 10 then [digit_char n] else decimal (n div 10) @ [digit_char (n mod 10)])"
  by pat_completeness auto
termination
  by (relation "measure (\<lambda>n. n)") auto

declare decimal.simps [simp del]

text \<open>The body of the \<^verbatim>\<open>try\<close> block of \<^verbatim>\<open>fetchWithRetry\<close>: \<open>Inl\<close> is what it throws.\<close>

definition attempt_result :: "fetch_outcome \<Rightarrow> error + envelope" where
  "attempt_result out =
     (case out of
        NetworkError m \<Rightarrow> Inl (Error m)
      | Response status b \<Rightarrow>
          if \<not> (200 \<le> status \<and> status \<le> 299)
          then Inl (Error (case (case b of None \<Rightarrow> None | Some errorData \<Rightarrow> message errorData) of
                             None \<Rightarrow> ''HTTP '' @ decimal status
                           | Some m \<Rightarrow> if m = [] then ''HTTP '' @ decimal status else m))
          else (case b of None \<Rightarrow> Inl (Error ''SyntaxError'') | Some r \<Rightarrow> Inr r))"

text \<open>
  The loop of \<^verbatim>\<open>fetchWithRetry\<close> from \<^verbatim>\<open>attempt\<close> on. The back-off delay between two
  attempts changes no state. A loop that runs out without an attempt (\<^verbatim>\<open>maxRetries = 0\<close>)
  resolves to \<^verbatim>\<open>undefined\<close>, which is \<open>Inr None\<close>.
\<close>

function retry_from ::
  "(request \<Rightarrow> 'e \<Rightarrow> fetch_outcome \<times> 'e) \<Rightarrow> request \<Rightarrow> nat \<Rightarrow> nat \<Rightarrow> 'e
     \<Rightarrow> (error + envelope option) \<times> 'e" where
  "retry_from fetch req maxRetries attempt e =
     (if attempt < maxRetries
      then (case attempt_result (fst (fetch req e)) of
              Inr r \<Rightarrow> (Inr (Some r), snd (fetch req e))
            | Inl err \<Rightarrow>
                if attempt = maxRetries - 1 then (Inl err, snd (fetch req e))
                else retry_from fetch req maxRetries (attempt + 1) (snd (fetch req e)))
      else (Inr None, e))"
  by pat_completeness auto
termination
  by (relation "measure (\<lambda>(fetch, req, maxRetries, attempt, e). maxRetries - attempt)") auto

declare retry_from.simps [simp del]

definition fetchWithRetry ::
  "(request \<Rightarrow> 'e \<Rightarrow> fetch_outcome \<times> 'e) \<Rightarrow> request \<Rightarrow> nat \<Rightarrow> 'e
     \<Rightarrow> (error + envelope option) \<times> 'e" where
  "fetchWithRetry fetch req maxRetries e = retry_from fetch req maxRetries 0 e"

definition defaultMaxRetries :: nat where
  "defaultMaxRetries = 3"

definition local_only :: "string \<Rightarrow> envelope option" where
  "local_only m = Some \<lparr>ok = True, message = Some m, listed = None\<rparr>"

text \<open>
  The mutating calls of the client: the local write first, then, when online, the
  request; a request that throws is answered with \<^verbatim>\<open>{ok: true, message}\<close>.
\<close>

definition APIClient_call ::
  "(request \<Rightarrow> 'e \<Rightarrow> fetch_outcome \<times> 'e) \<Rightarrow> bool \<Rightarrow> request \<Rightarrow> string \<Rightarrow> store \<Rightarrow> 'e
     \<Rightarrow> envelope option \<times> store \<times> 'e" where
  "APIClient_call fetch isOnline req m s e =
     (if \<not> isOnline then (local_only m, s, e)
      else (case fetchWithRetry fetch req defaultMaxRetries e of
              (Inr response, e') \<Rightarrow> (response, s, e')
            | (Inl err, e') \<Rightarrow> (local_only m, s, e')))"

definition APIClient_setPlan ::
  "platform \<Rightarrow> (request \<Rightarrow> 'e \<Rightarrow> fetch_outcome \<times> 'e) \<Rightarrow> bool \<Rightarrow> string \<Rightarrow> string \<Rightarrow> string list
     \<Rightarrow> store \<Rightarrow> 'e \<Rightarrow> envelope option \<times> store \<times> 'e" where
  "APIClient_setPlan P fetch isOnline weekStartId userName locations s e =
     APIClient_call fetch isOnline
       (POST ''/plans/set'' (plans_set_body weekStartId userName locations))
       ''Saved locally. Will sync when online.''
       (snd (setPlan P weekStartId userName locations s)) e"

definition APIClient_addUser ::
  "platform \<Rightarrow> (request \<Rightarrow> 'e \<Rightarrow> fetch_outcome \<times> 'e) \<Rightarrow> bool \<Rightarrow> string \<Rightarrow> string option
     \<Rightarrow> bool \<Rightarrow> store \<Rightarrow> 'e \<Rightarrow> envelope option \<times> store \<times> 'e" where
  "APIClient_addUser P fetch isOnline n pw adm s e =
     APIClient_call fetch isOnline
       (POST ''/users/add'' (case pw of Some p \<Rightarrow> users_add_body n p adm
                              | None \<Rightarrow> users_add_body_no_password n adm))
       ''User added locally. Will sync when online.''
       (snd (setUser P n \<lparr>password = pw, isAdmin = adm\<rparr> s)) e"

definition APIClient_deleteUser ::
  "platform \<Rightarrow> (request \<Rightarrow> 'e \<Rightarrow> fetch_outcome \<times> 'e) \<Rightarrow> bool \<Rightarrow> string
     \<Rightarrow> store \<Rightarrow> 'e \<Rightarrow> envelope option \<times> store \<times> 'e" where
  "APIClient_deleteUser P fetch isOnline n s e =
     APIClient_call fetch isOnline
       (POST ''/users/delete'' (users_delete_body n))
       ''User removed locally. Will sync when online.''
       (snd (removeUser P n s)) e"

definition APIClient_addCustomLocation ::
  "platform \<Rightarrow> (request \<Rightarrow> 'e \<Rightarrow> fetch_outcome \<times> 'e) \<Rightarrow> bool \<Rightarrow> string \<Rightarrow> string \<Rightarrow> string
     \<Rightarrow> string \<Rightarrow> store \<Rightarrow> 'e \<Rightarrow> envelope option \<times> store \<times> 'e" where
  "APIClient_addCustomLocation P fetch isOnline userName weekStartId dayDate location s e =
     APIClient_call fetch isOnline
       (POST ''/custom/add'' (custom_add_body userName weekStartId dayDate location))
       ''Custom location added locally. Will sync when online.''
       (snd (addCustomLocation P userName weekStartId dayDate location s)) e"

definition APIClient_setAdminOverride ::
  "platform \<Rightarrow> (request \<Rightarrow> 'e \<Rightarrow> fetch_outcome \<times> 'e) \<Rightarrow> bool \<Rightarrow> string \<Rightarrow> string
     \<Rightarrow> store \<Rightarrow> 'e \<Rightarrow> envelope option \<times> store \<times> 'e" where
  "APIClient_setAdminOverride P fetch isOnline admin weekStart s e =
     APIClient_call fetch isOnline
       (POST ''/override'' (override_body (Some admin) (Some weekStart)))
       ''Override set locally. Will sync when online.''
       (snd (setAdminOverride P admin weekStart s)) e"

definition APIClient_clearAdminOverride ::
  "platform \<Rightarrow> (request \<Rightarrow> 'e \<Rightarrow> fetch_outcome \<times> 'e) \<Rightarrow> bool
     \<Rightarrow> store \<Rightarrow> 'e \<Rightarrow> envelope option \<times> store \<times> 'e" where
  "APIClient_clearAdminOverride P fetch isOnline s e =
     APIClient_call fetch isOnline
       (POST ''/override'' (override_body None None))
       ''Override cleared locally. Will sync when online.''
       (snd (clearAdminOverride P s)) e"


definition merge_user :: "platform \<Rightarrow> user obj \<Rightarrow> listed_user \<Rightarrow> store \<Rightarrow> store" where
  "merge_user P currentUsers u s =
     (case get_property currentUsers (name u) of
        Absent \<Rightarrow> s
      | Own cur \<Rightarrow> snd (setUser P (name u) (cur\<lparr>isAdmin := listedAdmin u\<rparr>) s)
      | Inherited \<Rightarrow> snd (setUser P (name u) \<lparr>password = None, isAdmin = listedAdmin u\<rparr> s))"


section \<open>Sync Engine (\<^verbatim>\<open>APIClient.processSyncQueue\<close>)\<close>

text \<open>
  The \<^verbatim>\<open>switch\<close> on the action gives the response whose \<^verbatim>\<open>.ok\<close> becomes \<^verbatim>\<open>success\<close>; the
  \<^verbatim>\<open>default\<close> branch sets \<^verbatim>\<open>success = true\<close> and sends nothing, written here as a response
  with \<open>ok\<close>. Reading \<^verbatim>\<open>.ok\<close> of an \<^verbatim>\<open>undefined\<close> response throws: that is the \<open>None\<close> case
  of \<open>process_item\<close>, the \<^verbatim>\<open>catch\<close> block. The loop runs over the array read before it.
\<close>

definition dispatch ::
  "platform \<Rightarrow> (request \<Rightarrow> 'e \<Rightarrow> fetch_outcome \<times> 'e) \<Rightarrow> bool \<Rightarrow> sync_item \<Rightarrow> store \<Rightarrow> 'e
     \<Rightarrow> envelope option \<times> store \<times> 'e" where
  "dispatch P fetch isOnline item s e =
     (case act item of
        user_update n userData \<Rightarrow>
          APIClient_addUser P fetch isOnline n (password userData) (isAdmin userData) s e
      | user_delete n \<Rightarrow> APIClient_deleteUser P fetch isOnline n s e
      | plan_update weekStartId userName locations \<Rightarrow>
          APIClient_setPlan P fetch isOnline weekStartId userName locations s e
      | custom_location_add userName weekStartId dayDate location \<Rightarrow>
          APIClient_addCustomLocation P fetch isOnline userName weekStartId dayDate location s e
      | admin_override admin weekStart \<Rightarrow>
          APIClient_setAdminOverride P fetch isOnline admin weekStart s e
      | admin_override_clear \<Rightarrow> APIClient_clearAdminOverride P fetch isOnline s e
      | unknown_action a \<Rightarrow> (Some \<lparr>ok = True, message = None, listed = None\<rparr>, s, e))"

definition process_item ::
  "platform \<Rightarrow> (request \<Rightarrow> 'e \<Rightarrow> fetch_outcome \<times> 'e) \<Rightarrow> bool \<Rightarrow> sync_item \<Rightarrow> store \<times> 'e
     \<Rightarrow> store \<times> 'e" where
  "process_item P fetch isOnline item se =
     (case dispatch P fetch isOnline item (fst se) (snd se) of
        (None, s1, e1) \<Rightarrow>
          (updateSyncAttempts (item_id item) (attempts item + 1) s1, e1)
      | (Some response, s1, e1) \<Rightarrow>
          if ok response then (removeSyncItem (item_id item) s1, e1)
          else (let s2 = updateSyncAttempts (item_id item) (attempts item + 1) s1
                in if attempts item \<ge> 5 then (removeSyncItem (item_id item) s2, e1)
                   else (s2, e1)))"

definition processSyncQueue ::
  "platform \<Rightarrow> (request \<Rightarrow> 'e \<Rightarrow> fetch_outcome \<times> 'e) \<Rightarrow> bool \<Rightarrow> store \<times> 'e \<Rightarrow> store \<times> 'e" where
  "processSyncQueue P fetch isOnline se =
     (if \<not> isOnline then se
      else (let queue = getSyncQueue (fst se)
            in if length queue = 0 then se
               else (let se' = fold (process_item P fetch isOnline) queue se
                     in (setLastSync P (fst se'), snd se'))))"

section \<open>The plans/set function of the server (unnamed/part_001)\<close>

text \<open>
  A row of the \<^verbatim>\<open>plans\<close> sheet, without its \<^verbatim>\<open>updated_at\<close> cell. The handler answers 400
  to an empty \<^verbatim>\<open>weekStart\<close> or \<^verbatim>\<open>name\<close> and to an array that has not 7 entries, and
  otherwise overwrites the first row of that week and name, or appends one.
\<close>

record plan_row =
  week_start :: string
  row_name :: string
  days :: "string list"

fun save_row :: "plan_row \<Rightarrow> plan_row list \<Rightarrow> plan_row list" where
  "save_row planData [] = [planData]"
| "save_row planData (row # rows) =
     (if week_start row = week_start planData \<and> row_name row = row_name planData
      then planData # rows else row # save_row planData rows)"

definition plans_set_handler :: "body \<Rightarrow> plan_row list \<Rightarrow> fetch_outcome \<times> plan_row list" where
  "plans_set_handler b rows =
     (case b of
        plans_set_body weekStart n locationsArray \<Rightarrow>
          if weekStart = [] \<or> n = []
          then (Response 400 (Some \<lparr>ok = False,
                  message = Some ''weekStart, name, and locationsArray are required'',
                  listed = None\<rparr>), rows)
          else if length locationsArray \<noteq> 7
          then (Response 400 (Some \<lparr>ok = False,
                  message = Some ''locationsArray must have exactly 7 entries'',
                  listed = None\<rparr>), rows)
          else (Response 200 (Some \<lparr>ok = True, message = Some ''Plan saved successfully'',
                  listed = None\<rparr>),
                save_row \<lparr>week_start = weekStart, row_name = n, days = locationsArray\<rparr> rows)
      | _ \<Rightarrow> (Response 400 (Some \<lparr>ok = False,
                  message = Some ''weekStart, name, and locationsArray are required'',
                  listed = None\<rparr>), rows))"

text \<open>A network that delivers every request for \<^verbatim>\<open>/plans/set\<close> to the handler.\<close>

definition plans_server :: "request \<Rightarrow> plan_row list \<Rightarrow> fetch_outcome \<times> plan_row list" where
  "plans_server req rows =
     (case req of
        POST path b \<Rightarrow> if path = ''/plans/set'' then plans_set_handler b rows
                       else (Response 404 None, rows)
      | GET path \<Rightarrow> if path = ''/plans/set''
                  then (Response 405 (Some \<lparr>ok = False, message = Some ''Method not allowed'',
                          listed = None\<rparr>), rows)
                  else (Response 404 None, rows))"

definition remote_plan :: "plan_row list \<Rightarrow> string \<Rightarrow> string \<Rightarrow> string list option" where
  "remote_plan rows w n =
     map_option days (find (\<lambda>row. week_start row = w \<and> row_name row = n) rows)"

section \<open>Week Clock (js/utils.js, \<^verbatim>\<open>computeWeekStartIST\<close>)\<close>

subsection \<open>The time values of \<^verbatim>\<open>Date\<close>\<close>

text \<open>
  A \<^verbatim>\<open>Date\<close> holds a time value: a whole number of milliseconds since the epoch, or
  \<^verbatim>\<open>NaN\<close> (an invalid date), which is \<open>None\<close>; so is a number that may be \<^verbatim>\<open>NaN\<close>. The
  abstract operations are those of the language standard, on day numbers: \<open>Day\<close>,
  \<open>DayFromYear\<close>, the year, month and date of a day, \<open>MakeDay\<close>, \<open>TimeClip\<close>.
\<close>

definition msPerDay :: int where
  "msPerDay = 86400000"

definition TimeClip :: "int \<Rightarrow> int option" where
  "TimeClip t = (if \<bar>t\<bar> > 8640000000000000 then None else Some t)"

definition Day :: "int \<Rightarrow> int" where
  "Day t = t div msPerDay"

definition TimeWithinDay :: "int \<Rightarrow> int" where
  "TimeWithinDay t = t mod msPerDay"

definition DayFromYear :: "int \<Rightarrow> int" where
  "DayFromYear y = 365 * (y - 1970) + (y - 1969) div 4 - (y - 1901) div 100 + (y - 1601) div 400"

definition InLeapYear :: "int \<Rightarrow> bool" where
  "InLeapYear y = (y mod 4 = 0 \<and> (y mod 100 \<noteq> 0 \<or> y mod 400 = 0))"

text \<open>
  One year on, \<open>DayFromYear\<close> grows by the length of the year. The search for the year of
  a day terminates by this fact, which is why it stands before the function.
\<close>

lemma div_step:
  fixes x c :: int
  assumes "0 < c"
  shows "(x + 1) div c = x div c + (if (x + 1) mod c = 0 then 1 else 0)"
proof (cases "x mod c + 1 < c")
  case True
  have eq: "x + 1 = c * (x div c) + (x mod c + 1)" by simp
  have r0: "0 \<le> x mod c + 1" using assms by simp
  have d: "(x + 1) div c = x div c"
    using int_div_pos_eq[OF eq r0 True] .
  have m: "(x + 1) mod c = x mod c + 1"
    using int_mod_pos_eq[OF eq r0 True] .
  have "x mod c + 1 \<noteq> 0" using assms pos_mod_sign[of c x] by linarith
  with d m show ?thesis by simp
next
  case False
  have "x mod c < c" using assms by simp
  with False have r: "x mod c + 1 = c" by linarith
  have "x + 1 = c * (x div c) + (x mod c + 1)" by simp
  with r have eq: "x + 1 = c * (x div c + 1) + 0" by (simp add: algebra_simps)
  have d: "(x + 1) div c = x div c + 1"
    using int_div_pos_eq[OF eq] assms by simp
  have m: "(x + 1) mod c = 0"
    using int_mod_pos_eq[OF eq] assms by simp
  from d m show ?thesis by simp
qed

lemma mod_shift:
  fixes y k c :: int
  assumes "k mod c = 0"
  shows "(y - k) mod c = y mod c"
proof -
  have "(y - k) mod c = (y mod c - k mod c) mod c" by (simp add: mod_diff_eq)
  then show ?thesis using assms by simp
qed

lemma mod_400_100: "(y::int) mod 400 = 0 \<Longrightarrow> y mod 100 = 0"
  using mod_mod_cancel[of 100 400 y] by simp

lemma mod_100_4: "(y::int) mod 100 = 0 \<Longrightarrow> y mod 4 = 0"
  using mod_mod_cancel[of 4 100 y] by simp

lemma DayFromYear_step:
  "DayFromYear (y + 1) = DayFromYear y + (if InLeapYear y then 366 else 365)"
proof -
  define A where "A = (y - 1969) div 4"
  define B where "B = (y - 1901) div 100"
  define C where "C = (y - 1601) div 400"
  define p4 where "p4 = (y mod 4 = 0)"
  define p100 where "p100 = (y mod 100 = 0)"
  define p400 where "p400 = (y mod 400 = 0)"
  have s4: "y - 1969 + 1 = y - 1968" and s100: "y - 1901 + 1 = y - 1900"
    and s400: "y - 1601 + 1 = y - 1600" and s1: "y + 1 - 1970 = y - 1969"
    and t4: "y + 1 - 1969 = y - 1968" and t100: "y + 1 - 1901 = y - 1900"
    and t400: "y + 1 - 1601 = y - 1600"
    by simp_all
  have k4: "(1968::int) mod 4 = 0" and k100: "(1900::int) mod 100 = 0"
    and k400: "(1600::int) mod 400 = 0" by simp_all
  have a: "(y - 1968) div 4 = A + (if p4 then 1 else 0)"
    using div_step[of 4 "y - 1969"] mod_shift[OF k4, of y]
    unfolding s4 A_def p4_def by simp
  have b: "(y - 1900) div 100 = B + (if p100 then 1 else 0)"
    using div_step[of 100 "y - 1901"] mod_shift[OF k100, of y]
    unfolding s100 B_def p100_def by simp
  have c: "(y - 1600) div 400 = C + (if p400 then 1 else 0)"
    using div_step[of 400 "y - 1601"] mod_shift[OF k400, of y]
    unfolding s400 C_def p400_def by simp
  have e: "DayFromYear (y + 1) = 365 * (y - 1969) + (A + (if p4 then 1 else 0))
             - (B + (if p100 then 1 else 0)) + (C + (if p400 then 1 else 0))"
    unfolding DayFromYear_def t4 t100 t400 s1 a b c ..
  have f: "DayFromYear y = 365 * (y - 1970) + A - B + C"
    unfolding DayFromYear_def A_def B_def C_def ..
  have l: "InLeapYear y = (p4 \<and> (\<not> p100 \<or> p400))"
    unfolding InLeapYear_def p4_def p100_def p400_def ..
  have i1: "p400 \<Longrightarrow> p100" unfolding p400_def p100_def by (rule mod_400_100)
  have i2: "p100 \<Longrightarrow> p4" unfolding p4_def p100_def by (rule mod_100_4)
  show ?thesis
    unfolding e f l using i1 i2 by (cases p4; cases p100; cases p400) simp_all
qed

lemma DayFromYear_less: "DayFromYear y < DayFromYear (y + 1)"
  by (simp add: DayFromYear_step)

text \<open>
  The year of a day is the largest \<open>y\<close> with \<open>DayFromYear y \<le> d\<close>: the search goes up
  from a year that is not after it (no year has more than 366 days, none fewer than 365).
\<close>

function year_search :: "int \<Rightarrow> int \<Rightarrow> int" where
  "year_search d y = (if DayFromYear (y + 1) \<le> d then year_search d (y + 1) else y)"
  by pat_completeness auto
termination
proof (relation "measure (\<lambda>(d, y). nat (d + 1 - DayFromYear (y + 1)))")
  show "wf (measure (\<lambda>(d, y). nat (d + 1 - DayFromYear (y + 1))))"
    by simp
next
  fix d y :: int
  assume "DayFromYear (y + 1) \<le> d"
  moreover have "DayFromYear (y + 1) < DayFromYear (y + 1 + 1)"
    by (rule DayFromYear_less)
  ultimately show "((d, y + 1), (d, y)) \<in> measure (\<lambda>(d, y). nat (d + 1 - DayFromYear (y + 1)))"
    by simp
qed

declare year_search.simps [simp del]

definition YearFromDay :: "int \<Rightarrow> int" where
  "YearFromDay d = year_search d (1970 + (if d \<ge> 0 then d div 366 else d div 365))"

definition DayWithinYear :: "int \<Rightarrow> int" where
  "DayWithinYear d = d - DayFromYear (YearFromDay d)"

definition leapDay :: "int \<Rightarrow> int" where
  "leapDay d = (if InLeapYear (YearFromDay d) then 1 else 0)"

definition MonthFromDay :: "int \<Rightarrow> int" where
  "MonthFromDay d =
     (let w = DayWithinYear d; l = leapDay d
      in if w < 31 then 0
         else if w < 59 + l then 1
         else if w < 90 + l then 2
         else if w < 120 + l then 3
         else if w < 151 + l then 4
         else if w < 181 + l then 5
         else if w < 212 + l then 6
         else if w < 243 + l then 7
         else if w < 273 + l then 8
         else if w < 304 + l then 9
         else if w < 334 + l then 10
         else 11)"

definition DateFromDay :: "int \<Rightarrow> int" where
  "DateFromDay d =
     (let w = DayWithinYear d; l = leapDay d; m = MonthFromDay d
      in if m = 0 then w + 1
         else if m = 1 then w - 30
         else if m = 2 then w - 58 - l
         else if m = 3 then w - 89 - l
         else if m = 4 then w - 119 - l
         else if m = 5 then w - 150 - l
         else if m = 6 then w - 180 - l
         else if m = 7 then w - 211 - l
         else if m = 8 then w - 242 - l
         else if m = 9 then w - 272 - l
         else if m = 10 then w - 303 - l
         else w - 333 - l)"

definition WeekDay :: "int \<Rightarrow> int" where
  "WeekDay d = (d + 4) mod 7"

text \<open>The day number of the first day of month \<open>m\<close> (0 to 11) within its year.\<close>

definition month_start :: "int \<Rightarrow> bool \<Rightarrow> int" where
  "month_start m leap =
     [0, 31, 59, 90, 120, 151, 181, 212, 243, 273, 304, 334] ! nat m
       + (if leap \<and> m \<ge> 2 then 1 else 0)"

definition MakeDay :: "int \<Rightarrow> int \<Rightarrow> int \<Rightarrow> int" where
  "MakeDay year month date =
     (let ym = year + month div 12; mn = month mod 12
      in DayFromYear ym + month_start mn (InLeapYear ym) + date - 1)"

definition DaysInMonth :: "int \<Rightarrow> int \<Rightarrow> int" where
  "DaysInMonth year m =
     (if m = 1 then (if InLeapYear year then 29 else 28)
      else if m = 3 \<or> m = 5 \<or> m = 8 \<or> m = 10 then 30 else 31)"

text \<open>\<^verbatim>\<open>setUTCDate\<close>: the same year, month and time of day, with the given day of month.\<close>

definition setUTCDate :: "int option \<Rightarrow> int option \<Rightarrow> int option" where
  "setUTCDate dt this =
     (case this of
        None \<Rightarrow> None
      | Some t \<Rightarrow>
          (case dt of
             None \<Rightarrow> None
           | Some n \<Rightarrow> TimeClip (MakeDay (YearFromDay (Day t)) (MonthFromDay (Day t)) n * msPerDay
                                  + TimeWithinDay t)))"

definition getUTCDate :: "int option \<Rightarrow> int option" where
  "getUTCDate this = map_option (\<lambda>t. DateFromDay (Day t)) this"

definition getUTCMonth :: "int option \<Rightarrow> int option" where
  "getUTCMonth this = map_option (\<lambda>t. MonthFromDay (Day t)) this"

definition getUTCFullYear :: "int option \<Rightarrow> int option" where
  "getUTCFullYear this = map_option (\<lambda>t. YearFromDay (Day t)) this"

definition getUTCDay :: "int option \<Rightarrow> int option" where
  "getUTCDay this = map_option (\<lambda>t. WeekDay (Day t)) this"

subsection \<open>Strings of numbers\<close>

definition String :: "int option \<Rightarrow> string" where
  "String n = (case n of None \<Rightarrow> ''NaN''
               | Some k \<Rightarrow> if k < 0 then ''-'' @ decimal (nat (- k)) else decimal (nat k))"

definition padStart2 :: "string \<Rightarrow> string" where
  "padStart2 s = replicate (2 - length s) (CHR ''0'') @ s"

definition slice_last2 :: "string \<Rightarrow> string" where
  "slice_last2 s = drop (length s - 2) s"

definition monthNames :: "string list" where
  "monthNames = [''Jan'', ''Feb'', ''Mar'', ''Apr'', ''May'', ''Jun'',
                 ''Jul'', ''Aug'', ''Sep'', ''Oct'', ''Nov'', ''Dec'']"

definition monthName :: "int option \<Rightarrow> string" where
  "monthName m = (case m of None \<Rightarrow> ''undefined''
                  | Some k \<Rightarrow> if 0 \<le> k \<and> k < 12 then monthNames ! nat k else ''undefined'')"

subsection \<open>Parsing the override date\<close>

text \<open>
  \<^verbatim>\<open>new Date(overrideDateISO + 'T00:00:00.000Z')\<close>. The string is in the standard's date
  time format exactly when \<^verbatim>\<open>overrideDateISO\<close> is one of its date forms: \<^verbatim>\<open>YYYY\<close>,
  \<^verbatim>\<open>YYYY-MM\<close> or \<^verbatim>\<open>YYYY-MM-DD\<close>, the year of four digits, or of six after a sign (not
  \<^verbatim>\<open>-000000\<close>), the month and the day within their bounds. What any other string parses
  to is left to the implementation by the standard: that is the parameter \<open>legacy\<close>.
\<close>

definition digit_val :: "char \<Rightarrow> nat option" where
  "digit_val c = (if c \<in> set ''0123456789'' then Some (of_char c - 48) else None)"

fun read_digits :: "nat \<Rightarrow> nat \<Rightarrow> string \<Rightarrow> (nat \<times> string) option" where
  "read_digits 0 acc s = Some (acc, s)"
| "read_digits (Suc n) acc [] = None"
| "read_digits (Suc n) acc (c # s) =
     (case digit_val c of None \<Rightarrow> None | Some v \<Rightarrow> read_digits n (10 * acc + v) s)"

definition read_year :: "string \<Rightarrow> (int \<times> string) option" where
  "read_year s =
     (case s of
        [] \<Rightarrow> None
      | c # r \<Rightarrow>
          if c = CHR ''+'' then map_option (\<lambda>(v, rest). (int v, rest)) (read_digits 6 0 r)
          else if c = CHR ''-''
          then (case read_digits 6 0 r of
                  None \<Rightarrow> None
                | Some (v, rest) \<Rightarrow> if v = 0 then None else Some (- int v, rest))
          else map_option (\<lambda>(v, rest). (int v, rest)) (read_digits 4 0 s))"

definition read_field :: "string \<Rightarrow> (int \<times> string) option" where
  "read_field s =
     (case s of
        [] \<Rightarrow> None
      | c # r \<Rightarrow> if c = CHR ''-'' then map_option (\<lambda>(v, rest). (int v, rest)) (read_digits 2 0 r)
                 else None)"

definition parse_date_only :: "string \<Rightarrow> (int \<times> int \<times> int) option" where
  "parse_date_only s =
     (case read_year s of
        None \<Rightarrow> None
      | Some (y, r1) \<Rightarrow>
          if r1 = [] then Some (y, 1, 1)
          else (case read_field r1 of
                  None \<Rightarrow> None
                | Some (m, r2) \<Rightarrow>
                    if \<not> (1 \<le> m \<and> m \<le> 12) then None
                    else if r2 = [] then Some (y, m, 1)
                    else (case read_field r2 of
                            None \<Rightarrow> None
                          | Some (d, r3) \<Rightarrow>
                              if r3 = [] \<and> 1 \<le> d \<and> d \<le> DaysInMonth y (m - 1)
                              then Some (y, m, d) else None)))"

definition Date_of_override :: "(string \<Rightarrow> int option) \<Rightarrow> string \<Rightarrow> int option" where
  "Date_of_override legacy overrideDateISO =
     (case parse_date_only overrideDateISO of
        Some (y, m, d) \<Rightarrow> TimeClip (MakeDay y (m - 1) d * msPerDay)
      | None \<Rightarrow> legacy (overrideDateISO @ ''T00:00:00.000Z''))"

subsection \<open>\<^verbatim>\<open>computeWeekStartIST\<close>\<close>

record week_info =
  weekStartId :: string
  headers :: "string list"
  dayDates :: "string list"

definition IST_OFFSET :: int where
  "IST_OFFSET = 19800000"

definition header_of :: "int option \<Rightarrow> string" where
  "header_of currentDay =
     padStart2 (String (getUTCDate currentDay)) @ ''/'' @ monthName (getUTCMonth currentDay)
       @ ''/'' @ slice_last2 (String (getUTCFullYear currentDay))"

definition dayDate_of :: "int option \<Rightarrow> string" where
  "dayDate_of currentDay =
     String (getUTCFullYear currentDay) @ ''-''
       @ padStart2 (String (map_option (\<lambda>m. m + 1) (getUTCMonth currentDay))) @ ''-''
       @ padStart2 (String (getUTCDate currentDay))"

definition day_of_week :: "int option \<Rightarrow> int \<Rightarrow> int option" where
  "day_of_week mondayDate i =
     setUTCDate (map_option (\<lambda>d. d + i) (getUTCDate mondayDate)) mondayDate"

definition computeWeekStartIST ::
  "(string \<Rightarrow> int option) \<Rightarrow> int option \<Rightarrow> string option \<Rightarrow> week_info" where
  "computeWeekStartIST legacy date0 overrideDateISO =
     (let date = (case overrideDateISO of
                    None \<Rightarrow> date0
                  | Some ov \<Rightarrow> if ov = [] then date0 else Date_of_override legacy ov);
          istDate = (case date of None \<Rightarrow> None | Some t \<Rightarrow> TimeClip (t + IST_OFFSET));
          dayOfWeek = getUTCDay istDate;
          mondayOffset = map_option (\<lambda>w. if w = 0 then - 6 else - (w - 1)) dayOfWeek;
          mondayDate = setUTCDate
             (case (getUTCDate istDate, mondayOffset) of
                (Some d, Some off) \<Rightarrow> Some (d + off) | _ \<Rightarrow> None) istDate;
          year = String (getUTCFullYear mondayDate);
          month = padStart2 (String (map_option (\<lambda>m. m + 1) (getUTCMonth mondayDate)));
          day = padStart2 (String (getUTCDate mondayDate))
      in \<lparr>weekStartId = year @ month @ day,
          headers = map (\<lambda>i. header_of (day_of_week mondayDate i)) [0, 1, 2, 3, 4, 5, 6],
          dayDates = map (\<lambda>i. dayDate_of (day_of_week mondayDate i)) [0, 1, 2, 3, 4, 5, 6]\<rparr>)"

text \<open>
  \<^verbatim>\<open>Date.UTC(year, month, date)\<close>, the Monday of the week of a day (Sunday is day 0 and
  belongs to the week of the Monday six days before), and two decimal digits: names
  for the statements about the week clock.
\<close>

definition Date_UTC :: "int \<Rightarrow> int \<Rightarrow> int \<Rightarrow> int" where
  "Date_UTC year month date = MakeDay year month date * msPerDay"

definition monday_of :: "int \<Rightarrow> int" where
  "monday_of d = d + (if WeekDay d = 0 then - 6 else - (WeekDay d - 1))"

definition two_digits :: "nat \<Rightarrow> string" where
  "two_digits n = [digit_char (n div 10), digit_char (n mod 10)]"

text \<open>The week id and the ISO date of the day with number \<open>m\<close>, for years of four digits.\<close>

definition week_id_of :: "int \<Rightarrow> string" where
  "week_id_of m = decimal (nat (YearFromDay m)) @ two_digits (nat (MonthFromDay m + 1))
                    @ two_digits (nat (DateFromDay m))"

definition iso_of :: "int \<Rightarrow> string" where
  "iso_of m = decimal (nat (YearFromDay m)) @ ''-'' @ two_digits (nat (MonthFromDay m + 1))
                @ ''-'' @ two_digits (nat (DateFromDay m))"

section \<open>Fixtures\<close>

text \<open>
  A browser whose clock gives the number of the reading as id and the same timestamp
  each time, and the state at page load with nothing in the Web Storage.
\<close>

definition browser :: platform where
  "browser = \<lparr>genId = (\<lambda>k. k), isoNow = (\<lambda>k. ''now'')\<rparr>"

definition page_load :: store where
  "page_load = \<lparr>slot = None, tick = 0\<rparr>"

definition plan_A :: "string list" where
  "plan_A = [''X'', [], [], [], [], [], []]"

definition plan_B :: "string list" where
  "plan_B = [''Y'', ''Z'', [], [], [], [], []]"


text \<open>A network that answers from a script, one outcome per \<^verbatim>\<open>fetch\<close>, and fails once it is used up.\<close>

definition scripted :: "request \<Rightarrow> fetch_outcome list \<Rightarrow> fetch_outcome \<times> fetch_outcome list" where
  "scripted req script =
     (case script of [] \<Rightarrow> (NetworkError ''Failed to fetch'', [])
      | out # rest \<Rightarrow> (out, rest))"

definition user_exists :: fetch_outcome where
  "user_exists = Response 409 (Some \<lparr>ok = False, message = Some ''User already exists'', listed = None\<rparr>)"

definition accepted :: fetch_outcome where
  "accepted = Response 200 (Some \<lparr>ok = True, message = Some ''User added successfully'', listed = None\<rparr>)"


section \<open>Local Store: what the operations do to the state\<close>

lemma getData_empty [simp]: "getData s = empty_doc"
  by (simp add: getData_def localStorage_getItem_def LocalStorage_members_def
        Object_prototype_names_def)

lemma saveData_fails [simp]: "saveData data s = (False, s)"
  by (simp add: saveData_def localStorage_setItem_def LocalStorage_members_def
        Object_prototype_names_def)

lemma getSyncQueue_empty [simp]: "getSyncQueue s = []"
  by (simp add: getSyncQueue_def empty_doc_def)

lemma getUsers_empty [simp]: "getUsers s = []"
  by (simp add: getUsers_def empty_doc_def)

lemma initializeStorage_eq: "initializeStorage s = s"
  by (simp add: initializeStorage_def)

lemma addToSyncQueue_eq: "addToSyncQueue P a s = s\<lparr>tick := Suc (tick s)\<rparr>"
  by (simp add: addToSyncQueue_def Let_def)

lemma setUser_eq: "setUser P n u s = (Inr (), s\<lparr>tick := Suc (tick s)\<rparr>)"
  by (simp add: setUser_def Let_def addToSyncQueue_eq)

lemma removeUser_eq: "removeUser P n s = (Inr (), s\<lparr>tick := Suc (tick s)\<rparr>)"
  by (simp add: removeUser_def Let_def addToSyncQueue_eq)

lemma setPlan_eq: "setPlan P w n l s = (Inr (), s\<lparr>tick := Suc (tick s)\<rparr>)"
  by (simp add: setPlan_def Let_def addToSyncQueue_eq)

lemma addCustomLocation_eq:
  "addCustomLocation P n w dd loc s = (Inr (), s\<lparr>tick := Suc (tick s)\<rparr>)"
  by (simp add: addCustomLocation_def Let_def addToSyncQueue_eq)

lemma setAdminOverride_eq:
  "setAdminOverride P n w s = (Inr (), s\<lparr>tick := Suc (Suc (tick s))\<rparr>)"
  by (simp add: setAdminOverride_def Let_def addToSyncQueue_eq)

lemma clearAdminOverride_eq: "clearAdminOverride P s = (Inr (), s\<lparr>tick := Suc (tick s)\<rparr>)"
  by (simp add: clearAdminOverride_def Let_def addToSyncQueue_eq)

lemma removeSyncItem_eq: "removeSyncItem i s = s"
  by (simp add: removeSyncItem_def empty_doc_def)

lemma updateSyncAttempts_eq: "updateSyncAttempts i n s = s"
  by (simp add: updateSyncAttempts_def empty_doc_def)

lemma processSyncQueue_eq: "processSyncQueue P fetch isOnline se = se"
  by (simp add: processSyncQueue_def)

lemma APIClient_call_store: "fst (snd (APIClient_call fetch isOnline req m s e)) = s"
  by (simp add: APIClient_call_def split: prod.splits sum.splits)

section \<open>Local mutations and the queue\<close>

text \<open>
  Claim C2 fails on the code. At page load \<^verbatim>\<open>setPlan("20250811", "A", plan)\<close> returns
  normally; \<^verbatim>\<open>addToSyncQueue\<close> is called and builds its item, but the document it reads
  is \<^verbatim>\<open>{}\<close> and its write is refused, so the queue read afterwards is as empty as before:
  no item was appended. Nor is the plan stored. The same holds of the five other
  mutating operations.
\<close>

theorem mutation_leaves_queue_empty:
  "getSyncQueue page_load = [] \<and>
   fst (setPlan browser ''20250811'' ''A'' plan_A page_load) = Inr () \<and>
   getSyncQueue (snd (setPlan browser ''20250811'' ''A'' plan_A page_load)) = [] \<and>
   planOf (getData (snd (setPlan browser ''20250811'' ''A'' plan_A page_load))) ''20250811'' ''A''
     = None \<and>
   slot (snd (setPlan browser ''20250811'' ''A'' plan_A page_load)) = None \<and>
   getSyncQueue (snd (setUser browser ''A'' \<lparr>password = Some ''1234'', isAdmin = False\<rparr> page_load))
     = [] \<and>
   getSyncQueue (snd (removeUser browser ''A'' page_load)) = [] \<and>
   getSyncQueue (snd (addCustomLocation browser ''A'' ''20250811'' ''2025-08-11'' ''Depot'' page_load))
     = [] \<and>
   getSyncQueue (snd (setAdminOverride browser ''A'' ''2025-08-11'' page_load)) = [] \<and>
   getSyncQueue (snd (clearAdminOverride browser page_load)) = []"
  by (simp add: setPlan_eq planOf_def empty_doc_def page_load_def)

section \<open>Replay order\<close>

lemma plans_set_accepted:
  assumes "length l = 7"
  shows "fetchWithRetry plans_server (POST ''/plans/set'' (plans_set_body ''20250811'' ''A'' l))
           defaultMaxRetries rows =
         (Inr (Some \<lparr>ok = True, message = Some ''Plan saved successfully'', listed = None\<rparr>),
          save_row \<lparr>week_start = ''20250811'', row_name = ''A'', days = l\<rparr> rows)"
  using assms
  by (simp add: fetchWithRetry_def defaultMaxRetries_def retry_from.simps plans_server_def
        plans_set_handler_def attempt_result_def)

text \<open>
  Claim C5 fails on the code. The client is offline; the plan of user \<open>A\<close> for the week
  20250811 is set to \<open>plan_A\<close> and then to \<open>plan_B\<close>, each call enqueueing its
  \<^verbatim>\<open>plan_update\<close>; then the client is online, the server takes every request, and one
  replay pass runs. The pass finds an empty queue and sends nothing: the server has no
  row for the week and user, and the store has no plan for them, where both should
  have \<open>plan_B\<close>. When the two calls are made online instead, each is sent at once and
  the server ends with \<open>plan_B\<close>, but the store has no plan after the pass either.
\<close>

theorem offline_plans_never_replayed:
  "(let s1 = fst (snd (APIClient_setPlan browser plans_server False
                         ''20250811'' ''A'' plan_A page_load []));
        s2 = fst (snd (APIClient_setPlan browser plans_server False
                         ''20250811'' ''A'' plan_B s1 []));
        r = processSyncQueue browser plans_server True (s2, [])
    in getSyncQueue s2 = [] \<and>
       snd r = [] \<and>
       remote_plan (snd r) ''20250811'' ''A'' = None \<and>
       remote_plan (snd r) ''20250811'' ''A'' \<noteq> Some plan_B \<and>
       planOf (getData (fst r)) ''20250811'' ''A'' = None \<and>
       planOf (getData (fst r)) ''20250811'' ''A'' \<noteq> Some plan_B) \<and>
   (let c1 = snd (APIClient_setPlan browser plans_server True
                    ''20250811'' ''A'' plan_A page_load []);
        c2 = snd (APIClient_setPlan browser plans_server True
                    ''20250811'' ''A'' plan_B (fst c1) (snd c1));
        r = processSyncQueue browser plans_server True c2
    in remote_plan (snd r) ''20250811'' ''A'' = Some plan_B \<and>
       planOf (getData (fst r)) ''20250811'' ''A'' = None \<and>
       planOf (getData (fst r)) ''20250811'' ''A'' \<noteq> Some plan_B)"
  by (simp add: Let_def processSyncQueue_eq remote_plan_def planOf_def empty_doc_def
        APIClient_setPlan_def APIClient_call_def setPlan_eq plans_set_accepted plan_A_def plan_B_def)

section \<open>Storage failure\<close>

text \<open>
  Claim C8, as the code has it. The write of \<^verbatim>\<open>saveData\<close> fails in every call:
  \<^verbatim>\<open>saveData\<close> returns \<^verbatim>\<open>false\<close> and leaves the state as it is. Each of the six mutating
  operations returns normally (its caller is told nothing), and after it the item of
  the Web Storage, the document the store reads and the queue are what they were, so
  that nothing of the mutation is applied, in part or in whole. For \<^verbatim>\<open>setPlan\<close> and
  \<^verbatim>\<open>addCustomLocation\<close> the normal return is stated for week and user keys that name no
  property of \<^verbatim>\<open>Object.prototype\<close>, the keys under which they assign to the document.
\<close>

theorem storage_failure_swallowed:
  "saveData data s = (False, s) \<and>
   fst (setUser P n u s) = Inr () \<and>
   slot (snd (setUser P n u s)) = slot s \<and>
   getData (snd (setUser P n u s)) = getData s \<and>
   getSyncQueue (snd (setUser P n u s)) = getSyncQueue s \<and>
   fst (removeUser P n s) = Inr () \<and>
   slot (snd (removeUser P n s)) = slot s \<and>
   getData (snd (removeUser P n s)) = getData s \<and>
   getSyncQueue (snd (removeUser P n s)) = getSyncQueue s \<and>
   fst (setAdminOverride P n w s) = Inr () \<and>
   slot (snd (setAdminOverride P n w s)) = slot s \<and>
   getData (snd (setAdminOverride P n w s)) = getData s \<and>
   getSyncQueue (snd (setAdminOverride P n w s)) = getSyncQueue s \<and>
   fst (clearAdminOverride P s) = Inr () \<and>
   slot (snd (clearAdminOverride P s)) = slot s \<and>
   getData (snd (clearAdminOverride P s)) = getData s \<and>
   getSyncQueue (snd (clearAdminOverride P s)) = getSyncQueue s \<and>
   (w \<notin> set Object_prototype_names \<longrightarrow> fst (setPlan P w n l s) = Inr ()) \<and>
   slot (snd (setPlan P w n l s)) = slot s \<and>
   getData (snd (setPlan P w n l s)) = getData s \<and>
   getSyncQueue (snd (setPlan P w n l s)) = getSyncQueue s \<and>
   (n \<notin> set Object_prototype_names \<and> w \<notin> set Object_prototype_names \<longrightarrow>
      fst (addCustomLocation P n w dd loc s) = Inr ()) \<and>
   slot (snd (addCustomLocation P n w dd loc s)) = slot s \<and>
   getData (snd (addCustomLocation P n w dd loc s)) = getData s \<and>
   getSyncQueue (snd (addCustomLocation P n w dd loc s)) = getSyncQueue s"
  by (simp add: setUser_eq removeUser_eq setPlan_eq addCustomLocation_eq setAdminOverride_eq
        clearAdminOverride_eq)

theorem storage_failure_swallowed_witness:
  "''20250811'' \<notin> set Object_prototype_names \<and> ''A'' \<notin> set Object_prototype_names \<and>
   saveData empty_doc page_load = (False, page_load) \<and>
   fst (setPlan browser ''20250811'' ''A'' plan_A page_load) = Inr () \<and>
   slot (snd (setPlan browser ''20250811'' ''A'' plan_A page_load)) = None \<and>
   fst (addCustomLocation browser ''A'' ''20250811'' ''2025-08-11'' ''Depot'' page_load) = Inr () \<and>
   slot (snd (addCustomLocation browser ''A'' ''20250811'' ''2025-08-11'' ''Depot'' page_load)) = None"
  using storage_failure_swallowed[of empty_doc page_load browser "''A''" _ "''20250811''" plan_A
      "''2025-08-11''" "''Depot''"]
  by (simp add: Object_prototype_names_def page_load_def)

text \<open>
  Claim C8 as stated fails: at page load the write of \<^verbatim>\<open>setUser\<close> fails (\<^verbatim>\<open>saveData\<close>
  returns \<^verbatim>\<open>false\<close> for the document with the new user), and \<^verbatim>\<open>setUser\<close> returns normally,
  not with an error.
\<close>

theorem storage_failure_unreported_counterexample:
  "fst (saveData
     ((getData page_load)\<lparr>users := Some (assign ''A'' \<lparr>password = Some ''1234'', isAdmin = False\<rparr>
        (getUsers page_load))\<rparr>) page_load) = False \<and>
   fst (setUser browser ''A'' \<lparr>password = Some ''1234'', isAdmin = False\<rparr> page_load) = Inr () \<and>
   \<not> isl (fst (setUser browser ''A'' \<lparr>password = Some ''1234'', isAdmin = False\<rparr> page_load))"
  by (simp add: setUser_eq)

section \<open>Cascade delete\<close>









section \<open>Read-path merge of the user list\<close>



text \<open>
  A listed user named \<^verbatim>\<open>constructor\<close> passes the test of the merge although the store has
  no such user: \<^verbatim>\<open>setUser\<close> is called (it reads the clock), and stores nothing.
\<close>

lemma merge_inherited_name:
  "tick (merge_user P [] \<lparr>name = ''constructor'', listedAdmin = True\<rparr> s) = Suc (tick s) \<and>
   getUsers (merge_user P [] \<lparr>name = ''constructor'', listedAdmin = True\<rparr> s) = []"
  by (simp add: merge_user_def get_property_def Object_prototype_names_def setUser_eq)



section \<open>Replay of the queue\<close>



section \<open>Retry of a rejected request\<close>

lemma all_rejected_from:
  fixes E :: "nat \<Rightarrow> 'e"
  assumes "\<forall>k < maxRetries. \<exists>status errorData.
             fst (fetch req (E k)) = Response status (Some errorData)
             \<and> \<not> (200 \<le> status \<and> status \<le> 299)
             \<and> message errorData = Some (msg k) \<and> msg k \<noteq> []"
    and "\<And>k. E (Suc k) = snd (fetch req (E k))"
    and "attempt < maxRetries"
  shows "retry_from fetch req maxRetries attempt (E attempt) =
           (Inl (Error (msg (maxRetries - 1))), E maxRetries)"
  using assms(3)
proof (induction n \<equiv> "maxRetries - attempt" arbitrary: attempt)
  case 0
  then show ?case by linarith
next
  case (Suc n)
  obtain status errorData where r: "fst (fetch req (E attempt)) = Response status (Some errorData)"
    "\<not> (200 \<le> status \<and> status \<le> 299)" "message errorData = Some (msg attempt)" "msg attempt \<noteq> []"
    using assms(1) Suc.prems by blast
  have step: "retry_from fetch req maxRetries attempt (E attempt) =
           (if attempt = maxRetries - 1 then (Inl (Error (msg attempt)), E (Suc attempt))
            else retry_from fetch req maxRetries (Suc attempt) (E (Suc attempt)))"
    unfolding assms(2)
    using Suc.prems r by (subst retry_from.simps) (simp add: attempt_result_def)
  show ?case
  proof (cases "attempt = maxRetries - 1")
    case True
    then have "Suc attempt = maxRetries" using Suc.prems by linarith
    with step True show ?thesis by simp
  next
    case False
    then have lt: "Suc attempt < maxRetries" using Suc.prems by linarith
    have n: "n = maxRetries - Suc attempt" using Suc.hyps(2) by linarith
    from Suc.hyps(1)[OF n lt] step False show ?thesis by simp
  qed
qed

text \<open>
  Claim C4, as the code has it. An attempt that is answered with a status outside 200
  to 299 and a JSON body with a message \<open>m\<close> throws \<open>Error m\<close> inside the \<^verbatim>\<open>try\<close> block, so it
  is caught like a failed \<^verbatim>\<open>fetch\<close>: the call fails with that error only if the attempt
  was the last one of \<open>maxRetries\<close>, and otherwise the loop goes on to the next attempt.
\<close>

theorem rejection_is_retried:
  assumes "attempt < maxRetries"
    and "fst (fetch req e) = Response status (Some errorData)"
    and "\<not> (200 \<le> status \<and> status \<le> 299)"
    and "message errorData = Some m" and "m \<noteq> []"
  shows "retry_from fetch req maxRetries attempt e =
           (if attempt = maxRetries - 1 then (Inl (Error m), snd (fetch req e))
            else retry_from fetch req maxRetries (attempt + 1) (snd (fetch req e)))"
  using assms
  by (subst retry_from.simps) (simp add: attempt_result_def)

theorem rejection_is_retried_witness:
  "(0::nat) < defaultMaxRetries \<and>
   fst (scripted (POST ''/users/add'' (users_add_body ''A'' ''1234'' False)) [user_exists, accepted])
     = Response 409 (Some \<lparr>ok = False, message = Some ''User already exists'', listed = None\<rparr>) \<and>
   \<not> (200 \<le> (409::nat) \<and> (409::nat) \<le> 299) \<and>
   retry_from scripted (POST ''/users/add'' (users_add_body ''A'' ''1234'' False)) defaultMaxRetries 0
      [user_exists, accepted]
     = retry_from scripted (POST ''/users/add'' (users_add_body ''A'' ''1234'' False)) defaultMaxRetries 1
      [accepted]"
  using rejection_is_retried[of 0 defaultMaxRetries scripted
      "POST ''/users/add'' (users_add_body ''A'' ''1234'' False)" "[user_exists, accepted]" 409
      "\<lparr>ok = False, message = Some ''User already exists'', listed = None\<rparr>" "''User already exists''"]
  by (simp add: defaultMaxRetries_def scripted_def user_exists_def)

text \<open>
  Claim C4 as stated fails: the server answers the first attempt with 409 and the
  message \<^verbatim>\<open>User already exists\<close>, the second with 200. The call does not fail with the
  message after one attempt; it makes the second attempt and succeeds.
\<close>

theorem rejected_request_retried_counterexample:
  "fetchWithRetry scripted (POST ''/users/add'' (users_add_body ''A'' ''1234'' False)) defaultMaxRetries
      [user_exists, accepted]
     = (Inr (Some \<lparr>ok = True, message = Some ''User added successfully'', listed = None\<rparr>), []) \<and>
   fetchWithRetry scripted (POST ''/users/add'' (users_add_body ''A'' ''1234'' False)) defaultMaxRetries
      [user_exists, accepted]
     \<noteq> (Inl (Error ''User already exists''), [accepted])"
  by (simp add: fetchWithRetry_def defaultMaxRetries_def retry_from.simps scripted_def
        user_exists_def accepted_def attempt_result_def)

section \<open>Week Clock: calendar and string lemmas\<close>

lemma DayFromYear_1970: "DayFromYear 1970 = 0"
  by (simp add: DayFromYear_def)

lemma DayFromYear_up: "DayFromYear (y + int k) \<le> DayFromYear y + 366 * int k"
proof (induction k)
  case 0
  then show ?case by simp
next
  case (Suc k)
  have "DayFromYear (y + int (Suc k)) = DayFromYear (y + int k + 1)" by (simp add: algebra_simps)
  also have "\<dots> \<le> DayFromYear (y + int k) + 366" by (simp add: DayFromYear_step)
  finally show ?case using Suc.IH by simp
qed

lemma DayFromYear_up365: "DayFromYear y + 365 * int k \<le> DayFromYear (y + int k)"
proof (induction k)
  case 0
  then show ?case by simp
next
  case (Suc k)
  have "DayFromYear (y + int (Suc k)) = DayFromYear (y + int k + 1)" by (simp add: algebra_simps)
  also have "\<dots> \<ge> DayFromYear (y + int k) + 365" by (simp add: DayFromYear_step)
  finally show ?case using Suc.IH by simp
qed

lemma DayFromYear_mono: "a \<le> b \<Longrightarrow> DayFromYear a \<le> DayFromYear b"
  using DayFromYear_up365[of a "nat (b - a)"] by simp

lemma DayFromYear_strict: "a < b \<Longrightarrow> DayFromYear a < DayFromYear b"
  using DayFromYear_mono[of "a + 1" b] DayFromYear_less[of a] by simp

lemma year_guess:
  "DayFromYear (1970 + (if d \<ge> 0 then d div 366 else d div 365)) \<le> d"
proof (cases "d \<ge> 0")
  case True
  then have q: "0 \<le> d div 366" by (simp add: pos_imp_zdiv_nonneg_iff)
  have "DayFromYear (1970 + int (nat (d div 366))) \<le> DayFromYear 1970 + 366 * int (nat (d div 366))"
    by (rule DayFromYear_up)
  then have "DayFromYear (1970 + d div 366) \<le> 366 * (d div 366)"
    using q by (simp add: DayFromYear_1970)
  moreover have "366 * (d div 366) + d mod 366 = d" by (rule mult_div_mod_eq)
  moreover have "0 \<le> d mod 366" by simp
  ultimately show ?thesis using True by simp
next
  case False
  then have q: "d div 365 < 0" by (simp add: neg_imp_zdiv_neg_iff)
  define k where "k = nat (- (d div 365))"
  have k: "int k = - (d div 365)" using q by (simp add: k_def)
  have "DayFromYear (1970 + d div 365) + 365 * int k \<le> DayFromYear (1970 + d div 365 + int k)"
    by (rule DayFromYear_up365)
  then have "DayFromYear (1970 + d div 365) \<le> 365 * (d div 365)"
    unfolding k by (simp add: DayFromYear_1970)
  moreover have "365 * (d div 365) + d mod 365 = d" by (rule mult_div_mod_eq)
  moreover have "0 \<le> d mod 365" by simp
  ultimately show ?thesis using False by simp
qed

lemma year_search_bounds:
  "DayFromYear y \<le> d \<Longrightarrow>
     DayFromYear (year_search d y) \<le> d \<and> d < DayFromYear (year_search d y + 1)"
proof (induction d y rule: year_search.induct)
  case (1 d y)
  show ?case
  proof (cases "DayFromYear (y + 1) \<le> d")
    case True
    from "1.IH"[OF True True] show ?thesis
      by (subst (1 2) year_search.simps) (simp add: True)
  next
    case False
    then show ?thesis
      using "1.prems" by (subst (1 2) year_search.simps) simp
  qed
qed

lemma YearFromDay_bounds:
  "DayFromYear (YearFromDay d) \<le> d" "d < DayFromYear (YearFromDay d + 1)"
  using year_search_bounds[OF year_guess[of d]] by (simp_all add: YearFromDay_def)

lemma YearFromDay_eq:
  assumes "DayFromYear y \<le> d" "d < DayFromYear (y + 1)"
  shows "YearFromDay d = y"
proof (rule ccontr)
  assume n: "YearFromDay d \<noteq> y"
  show False
  proof (cases "YearFromDay d < y")
    case True
    then have "DayFromYear (YearFromDay d + 1) \<le> DayFromYear y" by (simp add: DayFromYear_mono)
    with YearFromDay_bounds(2)[of d] assms(1) show False by simp
  next
    case False
    with n have "y + 1 \<le> YearFromDay d" by simp
    then have "DayFromYear (y + 1) \<le> DayFromYear (YearFromDay d)" by (rule DayFromYear_mono)
    with YearFromDay_bounds(1)[of d] assms(2) show False by simp
  qed
qed

lemma YearFromDay_range:
  assumes "DayFromYear a \<le> d" "d < DayFromYear b"
  shows "a \<le> YearFromDay d" "YearFromDay d < b"
proof -
  show "a \<le> YearFromDay d"
  proof (rule ccontr)
    assume "\<not> a \<le> YearFromDay d"
    then have "YearFromDay d + 1 \<le> a" by simp
    then have "DayFromYear (YearFromDay d + 1) \<le> DayFromYear a" by (rule DayFromYear_mono)
    with YearFromDay_bounds(2)[of d] assms(1) show False by simp
  qed
  show "YearFromDay d < b"
  proof (rule ccontr)
    assume "\<not> YearFromDay d < b"
    then have "DayFromYear b \<le> DayFromYear (YearFromDay d)" by (simp add: DayFromYear_mono)
    with YearFromDay_bounds(1)[of d] assms(2) show False by simp
  qed
qed

lemma DayWithinYear_bounds:
  "0 \<le> DayWithinYear d" "DayWithinYear d < 365 + leapDay d"
  using YearFromDay_bounds[of d] DayFromYear_step[of "YearFromDay d"]
  by (simp_all add: DayWithinYear_def leapDay_def split: if_splits)

lemma MonthFromDay_range: "0 \<le> MonthFromDay d" "MonthFromDay d \<le> 11"
  by (simp_all add: MonthFromDay_def Let_def)

lemma leapDay_cases: "leapDay d = 0 \<or> leapDay d = 1"
  by (simp add: leapDay_def)

lemma MakeDay_month:
  assumes "0 \<le> m" "m \<le> 11"
  shows "MakeDay y m dt = DayFromYear y + month_start m (InLeapYear y) + dt - 1"
proof -
  have "m div 12 = 0" using assms by (simp add: div_pos_pos_trivial)
  moreover have "m mod 12 = m" using assms by (simp add: mod_pos_pos_trivial)
  ultimately show ?thesis by (simp add: MakeDay_def Let_def)
qed

lemma MonthFromDay_cases:
  "MonthFromDay d \<in> {0, 1, 2, 3, 4, 5, 6, 7, 8, 9, 10, 11}"
  by (simp add: MonthFromDay_def Let_def)

lemma month_start_vals:
  "month_start 0 b = 0" "month_start 1 b = 31"
  "month_start 2 b = 59 + (if b then 1 else 0)" "month_start 3 b = 90 + (if b then 1 else 0)"
  "month_start 4 b = 120 + (if b then 1 else 0)" "month_start 5 b = 151 + (if b then 1 else 0)"
  "month_start 6 b = 181 + (if b then 1 else 0)" "month_start 7 b = 212 + (if b then 1 else 0)"
  "month_start 8 b = 243 + (if b then 1 else 0)" "month_start 9 b = 273 + (if b then 1 else 0)"
  "month_start 10 b = 304 + (if b then 1 else 0)" "month_start 11 b = 334 + (if b then 1 else 0)"
  by (simp_all add: month_start_def)

lemma month_start_date:
  "month_start (MonthFromDay d) (InLeapYear (YearFromDay d)) + DateFromDay d - 1 = DayWithinYear d"
proof -
  have l: "leapDay d = (if InLeapYear (YearFromDay d) then 1 else 0)" by (simp add: leapDay_def)
  have "month_start m (InLeapYear (YearFromDay d)) +
          (let w = DayWithinYear d; l = leapDay d
           in if m = 0 then w + 1 else if m = 1 then w - 30 else if m = 2 then w - 58 - l
              else if m = 3 then w - 89 - l else if m = 4 then w - 119 - l
              else if m = 5 then w - 150 - l else if m = 6 then w - 180 - l
              else if m = 7 then w - 211 - l else if m = 8 then w - 242 - l
              else if m = 9 then w - 272 - l else if m = 10 then w - 303 - l
              else w - 333 - l) - 1 = DayWithinYear d"
    if "m \<in> {0, 1, 2, 3, 4, 5, 6, 7, 8, 9, 10, 11}" for m :: int
    using that by (elim insertE emptyE) (simp_all add: month_start_vals l)
  from this[OF MonthFromDay_cases[of d]] show ?thesis
    by (simp add: DateFromDay_def Let_def)
qed

lemma MakeDay_inverse:
  "MakeDay (YearFromDay d) (MonthFromDay d) (DateFromDay d + k) = d + k"
  using month_start_date[of d]
  by (simp add: MakeDay_month[OF MonthFromDay_range] DayWithinYear_def)

lemma DateFromDay_range:
  "1 \<le> DateFromDay d" "DateFromDay d \<le> DaysInMonth (YearFromDay d) (MonthFromDay d)"
proof -
  define w where "w = DayWithinYear d"
  define l where "l = leapDay d"
  have l: "l = (if InLeapYear (YearFromDay d) then 1 else 0)" by (simp add: l_def leapDay_def)
  have l01: "0 \<le> l" "l \<le> 1" by (simp_all add: l)
  have w: "0 \<le> w" "w < 365 + l" using DayWithinYear_bounds[of d] by (simp_all add: w_def l_def)
  have M: "MonthFromDay d =
      (if w < 31 then 0 else if w < 59 + l then 1 else if w < 90 + l then 2
       else if w < 120 + l then 3 else if w < 151 + l then 4 else if w < 181 + l then 5
       else if w < 212 + l then 6 else if w < 243 + l then 7 else if w < 273 + l then 8
       else if w < 304 + l then 9 else if w < 334 + l then 10 else 11)"
    by (simp add: MonthFromDay_def Let_def w_def l_def)
  have Dt: "DateFromDay d =
      (if MonthFromDay d = 0 then w + 1 else if MonthFromDay d = 1 then w - 30
       else if MonthFromDay d = 2 then w - 58 - l else if MonthFromDay d = 3 then w - 89 - l
       else if MonthFromDay d = 4 then w - 119 - l else if MonthFromDay d = 5 then w - 150 - l
       else if MonthFromDay d = 6 then w - 180 - l else if MonthFromDay d = 7 then w - 211 - l
       else if MonthFromDay d = 8 then w - 242 - l else if MonthFromDay d = 9 then w - 272 - l
       else if MonthFromDay d = 10 then w - 303 - l else w - 333 - l)"
    by (simp add: DateFromDay_def Let_def w_def l_def)
  consider (m0) "w < 31"
    | (m1) "31 \<le> w" "w < 59 + l"
    | (m2) "59 + l \<le> w" "w < 90 + l"
    | (m3) "90 + l \<le> w" "w < 120 + l"
    | (m4) "120 + l \<le> w" "w < 151 + l"
    | (m5) "151 + l \<le> w" "w < 181 + l"
    | (m6) "181 + l \<le> w" "w < 212 + l"
    | (m7) "212 + l \<le> w" "w < 243 + l"
    | (m8) "243 + l \<le> w" "w < 273 + l"
    | (m9) "273 + l \<le> w" "w < 304 + l"
    | (m10) "304 + l \<le> w" "w < 334 + l"
    | (m11) "334 + l \<le> w" "w < 365 + l"
    using w l01 by linarith
  then have "1 \<le> DateFromDay d \<and> DateFromDay d \<le> DaysInMonth (YearFromDay d) (MonthFromDay d)"
  proof cases
    case m0
    then have Mo: "MonthFromDay d = 0" using l01 unfolding M by simp
    show ?thesis unfolding Dt Mo using m0 w l01
      by (cases "InLeapYear (YearFromDay d)") (simp_all add: DaysInMonth_def l)
  next
    case m1
    then have Mo: "MonthFromDay d = 1" using l01 unfolding M by simp
    show ?thesis unfolding Dt Mo using m1 w l01
      by (cases "InLeapYear (YearFromDay d)") (simp_all add: DaysInMonth_def l)
  next
    case m2
    then have Mo: "MonthFromDay d = 2" using l01 unfolding M by simp
    show ?thesis unfolding Dt Mo using m2 w l01
      by (cases "InLeapYear (YearFromDay d)") (simp_all add: DaysInMonth_def l)
  next
    case m3
    then have Mo: "MonthFromDay d = 3" using l01 unfolding M by simp
    show ?thesis unfolding Dt Mo using m3 w l01
      by (cases "InLeapYear (YearFromDay d)") (simp_all add: DaysInMonth_def l)
  next
    case m4
    then have Mo: "MonthFromDay d = 4" using l01 unfolding M by simp
    show ?thesis unfolding Dt Mo using m4 w l01
      by (cases "InLeapYear (YearFromDay d)") (simp_all add: DaysInMonth_def l)
  next
    case m5
    then have Mo: "MonthFromDay d = 5" using l01 unfolding M by simp
    show ?thesis unfolding Dt Mo using m5 w l01
      by (cases "InLeapYear (YearFromDay d)") (simp_all add: DaysInMonth_def l)
  next
    case m6
    then have Mo: "MonthFromDay d = 6" using l01 unfolding M by simp
    show ?thesis unfolding Dt Mo using m6 w l01
      by (cases "InLeapYear (YearFromDay d)") (simp_all add: DaysInMonth_def l)
  next
    case m7
    then have Mo: "MonthFromDay d = 7" using l01 unfolding M by simp
    show ?thesis unfolding Dt Mo using m7 w l01
      by (cases "InLeapYear (YearFromDay d)") (simp_all add: DaysInMonth_def l)
  next
    case m8
    then have Mo: "MonthFromDay d = 8" using l01 unfolding M by simp
    show ?thesis unfolding Dt Mo using m8 w l01
      by (cases "InLeapYear (YearFromDay d)") (simp_all add: DaysInMonth_def l)
  next
    case m9
    then have Mo: "MonthFromDay d = 9" using l01 unfolding M by simp
    show ?thesis unfolding Dt Mo using m9 w l01
      by (cases "InLeapYear (YearFromDay d)") (simp_all add: DaysInMonth_def l)
  next
    case m10
    then have Mo: "MonthFromDay d = 10" using l01 unfolding M by simp
    show ?thesis unfolding Dt Mo using m10 w l01
      by (cases "InLeapYear (YearFromDay d)") (simp_all add: DaysInMonth_def l)
  next
    case m11
    then have Mo: "MonthFromDay d = 11" using l01 unfolding M by simp
    show ?thesis unfolding Dt Mo using m11 w l01
      by (cases "InLeapYear (YearFromDay d)") (simp_all add: DaysInMonth_def l)
  qed
  then show "1 \<le> DateFromDay d" "DateFromDay d \<le> DaysInMonth (YearFromDay d) (MonthFromDay d)"
    by simp_all
qed

lemma digit_cases: "k < 10 \<Longrightarrow> k \<in> {0, 1, 2, 3, 4, 5, 6, 7, 8, 9::nat}"
  by auto

lemma digit_val_digit_char: "k < 10 \<Longrightarrow> digit_val (digit_char k) = Some k"
  using digit_cases[of k] by (auto simp: digit_val_def digit_char_def)

lemma digit_char_no_sign:
  "k < 10 \<Longrightarrow> digit_char k \<noteq> CHR ''-''" "k < 10 \<Longrightarrow> digit_char k \<noteq> CHR ''+''"
  using digit_cases[of k] by (auto simp: digit_char_def)

lemma decimal_small: "n < 10 \<Longrightarrow> decimal n = [digit_char n]"
  by (subst decimal.simps) simp

lemma decimal_step: "10 \<le> n \<Longrightarrow> decimal n = decimal (n div 10) @ [digit_char (n mod 10)]"
  by (subst decimal.simps) simp

lemma digit_char_0: "digit_char 0 = CHR ''0''"
  by (simp add: digit_char_def)

lemma padStart2_decimal: "n < 100 \<Longrightarrow> padStart2 (decimal n) = two_digits n"
proof (cases "n < 10")
  case True
  then show ?thesis by (simp add: padStart2_def decimal_small two_digits_def digit_char_0)
next
  case False
  assume "n < 100"
  with False have "n div 10 < 10" by simp
  with False show ?thesis
    by (simp add: padStart2_def decimal_step decimal_small two_digits_def)
qed

lemma div_chain: "(n::nat) div 10 div 10 = n div 100" "n div 100 div 10 = n div 1000"
  by (simp_all add: div_mult2_eq[symmetric])

lemma decimal_four:
  assumes "1000 \<le> n" "n < 10000"
  shows "decimal n = [digit_char (n div 1000), digit_char (n div 100 mod 10),
                      digit_char (n div 10 mod 10), digit_char (n mod 10)]"
proof -
  have a: "decimal n = decimal (n div 10) @ [digit_char (n mod 10)]"
    using assms by (intro decimal_step) simp
  have "10 \<le> n div 10" using assms by simp
  from decimal_step[OF this]
  have b: "decimal (n div 10) = decimal (n div 100) @ [digit_char (n div 10 mod 10)]"
    by (simp only: div_chain)
  have "10 \<le> n div 100" using assms by simp
  from decimal_step[OF this]
  have c: "decimal (n div 100) = decimal (n div 1000) @ [digit_char (n div 100 mod 10)]"
    by (simp only: div_chain)
  have "n div 1000 < 10" using assms by simp
  from decimal_small[OF this]
  have d: "decimal (n div 1000) = [digit_char (n div 1000)]" .
  show ?thesis unfolding a b c d by simp
qed

lemma read_two:
  assumes "n < 100"
  shows "read_digits 2 0 (two_digits n @ rest) = Some (n, rest)"
proof -
  have a: "n div 10 < 10" "n mod 10 < 10" using assms by simp_all
  have "read_digits (Suc (Suc 0)) 0 (two_digits n @ rest) = Some (10 * (n div 10) + n mod 10, rest)"
    by (simp add: two_digits_def digit_val_digit_char[OF a(1)] digit_val_digit_char[OF a(2)])
  then show ?thesis by (simp add: numeral_2_eq_2)
qed

lemma four_digits_value:
  "10 * (10 * (10 * (n div 1000) + n div 100 mod 10) + n div 10 mod 10) + n mod 10 = (n::nat)"
proof -
  have f1: "10 * (n div 10) + n mod 10 = n" by (rule mult_div_mod_eq)
  have "10 * (n div 10 div 10) + n div 10 mod 10 = n div 10" by (rule mult_div_mod_eq)
  then have f2: "10 * (n div 100) + n div 10 mod 10 = n div 10" by (simp only: div_chain)
  have "10 * (n div 100 div 10) + n div 100 mod 10 = n div 100" by (rule mult_div_mod_eq)
  then have f3: "10 * (n div 1000) + n div 100 mod 10 = n div 100" by (simp only: div_chain)
  show ?thesis unfolding f3 f2 f1 ..
qed

lemma read_four:
  assumes "1000 \<le> n" "n < 10000"
  shows "read_digits 4 0 (decimal n @ rest) = Some (n, rest)"
proof -
  have a: "n div 1000 < 10" "n div 100 mod 10 < 10" "n div 10 mod 10 < 10" "n mod 10 < 10"
    using assms by simp_all
  have "read_digits (Suc (Suc (Suc (Suc 0)))) 0 (decimal n @ rest)
          = Some (10 * (10 * (10 * (n div 1000) + n div 100 mod 10) + n div 10 mod 10) + n mod 10, rest)"
    unfolding decimal_four[OF assms]
    by (simp add: digit_val_digit_char[OF a(1)] digit_val_digit_char[OF a(2)]
          digit_val_digit_char[OF a(3)] digit_val_digit_char[OF a(4)] del: mult_Suc_right)
  then show ?thesis unfolding four_digits_value by (simp add: eval_nat_numeral)
qed

lemma read_year_four:
  assumes "1000 \<le> n" "n < 10000"
  shows "read_year (decimal n @ rest) = Some (int n, rest)"
proof -
  have a: "n div 1000 < 10" using assms by simp
  obtain r where s: "decimal n @ rest = digit_char (n div 1000) # r"
    by (simp add: decimal_four[OF assms])
  have "read_year (digit_char (n div 1000) # r)
          = map_option (\<lambda>(v, rest). (int v, rest)) (read_digits 4 0 (digit_char (n div 1000) # r))"
    by (simp add: read_year_def digit_char_no_sign[OF a])
  then show ?thesis unfolding s[symmetric] by (simp add: read_four[OF assms])
qed

lemma read_field_two:
  assumes "n < 100"
  shows "read_field (''-'' @ two_digits n @ rest) = Some (int n, rest)"
  by (simp add: read_field_def read_two[OF assms])

lemma parse_formatted:
  assumes "1000 \<le> y" "y < 10000" "1 \<le> m" "m \<le> 12" "1 \<le> d"
    and "int d \<le> DaysInMonth (int y) (int m - 1)"
  shows "parse_date_only (decimal y @ ''-'' @ two_digits m @ ''-'' @ two_digits d)
           = Some (int y, int m, int d)"
proof -
  have "DaysInMonth (int y) (int m - 1) \<le> 31" by (simp add: DaysInMonth_def)
  then have d: "d < 100" using assms(6) by linarith
  have m: "m < 100" using assms(4) by simp
  have r1: "read_year (decimal y @ (''-'' @ two_digits m @ ''-'' @ two_digits d))
              = Some (int y, ''-'' @ two_digits m @ ''-'' @ two_digits d)"
    by (rule read_year_four[OF assms(1,2)])
  have r2: "read_field (''-'' @ two_digits m @ (''-'' @ two_digits d)) = Some (int m, ''-'' @ two_digits d)"
    by (rule read_field_two[OF m])
  have r3: "read_field (''-'' @ two_digits d @ []) = Some (int d, [])"
    by (rule read_field_two[OF d])
  show ?thesis
    unfolding parse_date_only_def
    using r1 r2 r3 assms by simp
qed


lemma msPerDay_pos: "0 < msPerDay" by (simp add: msPerDay_def)

lemma day_split: "Day t * msPerDay + TimeWithinDay t = t"
  by (simp add: Day_def TimeWithinDay_def)

lemma twd_bounds: "0 \<le> TimeWithinDay t" "TimeWithinDay t < msPerDay"
  using msPerDay_pos by (simp_all add: TimeWithinDay_def)

lemma Day_make:
  assumes "0 \<le> r" "r < msPerDay"
  shows "Day (d * msPerDay + r) = d" "TimeWithinDay (d * msPerDay + r) = r"
proof -
  have eq: "d * msPerDay + r = msPerDay * d + r" by simp
  show "Day (d * msPerDay + r) = d"
    unfolding Day_def using int_div_pos_eq[OF eq assms] .
  show "TimeWithinDay (d * msPerDay + r) = r"
    unfolding TimeWithinDay_def using int_mod_pos_eq[OF eq assms] .
qed

lemma DayFromYear_1000: "DayFromYear 1000 = - 354285"
  by (simp add: DayFromYear_def)

lemma DayFromYear_10000: "DayFromYear 10000 = 2932897"
  by (simp add: DayFromYear_def)

lemma DayFromYear_0: "DayFromYear 0 = - 719528"
  by (simp add: DayFromYear_def)

lemma TimeClip_days:
  assumes "- 100000000 \<le> Day t" "Day t < 100000000"
  shows "TimeClip t = Some t"
proof -
  define q where "q = Day t"
  define r where "r = TimeWithinDay t"
  have t: "t = q * 86400000 + r" using day_split[of t] by (simp add: q_def r_def msPerDay_def)
  have r: "0 \<le> r" "r < 86400000" using twd_bounds[of t] by (simp_all add: r_def msPerDay_def)
  have q: "- 100000000 \<le> q" "q < 100000000"
    using assms by (simp_all add: q_def)
  have "\<bar>t\<bar> \<le> 8640000000000000" unfolding t using r q by linarith
  then show ?thesis by (simp add: TimeClip_def)
qed

lemma monday_of_bounds: "d - 6 \<le> monday_of d" "monday_of d \<le> d"
proof -
  have "0 \<le> WeekDay d" "WeekDay d < 7" by (simp_all add: WeekDay_def)
  then show "d - 6 \<le> monday_of d" "monday_of d \<le> d"
    by (simp_all add: monday_of_def)
qed

lemma WeekDay_monday_of: "WeekDay (monday_of d) = 1"
  unfolding monday_of_def WeekDay_def by presburger

lemma monday_of_monday: "WeekDay d = 1 \<Longrightarrow> monday_of d = d"
  by (simp add: monday_of_def)

lemma setUTCDate_shift:
  assumes "- 100000000 \<le> Day t + k" "Day t + k < 100000000"
  shows "setUTCDate (Some (DateFromDay (Day t) + k)) (Some t)
           = Some ((Day t + k) * msPerDay + TimeWithinDay t)"
proof -
  have "Day ((Day t + k) * msPerDay + TimeWithinDay t) = Day t + k"
    by (rule Day_make[OF twd_bounds])
  then have "TimeClip ((Day t + k) * msPerDay + TimeWithinDay t)
               = Some ((Day t + k) * msPerDay + TimeWithinDay t)"
    using assms by (intro TimeClip_days) simp_all
  then show ?thesis by (simp add: setUTCDate_def MakeDay_inverse)
qed

lemma String_fields:
  assumes "DayFromYear 0 \<le> m"
  shows "String (Some (YearFromDay m)) = decimal (nat (YearFromDay m))"
    and "padStart2 (String (Some (MonthFromDay m + 1))) = two_digits (nat (MonthFromDay m + 1))"
    and "padStart2 (String (Some (DateFromDay m))) = two_digits (nat (DateFromDay m))"
proof -
  have y: "0 \<le> YearFromDay m" using YearFromDay_range(1)[OF assms YearFromDay_bounds(2)] .
  show "String (Some (YearFromDay m)) = decimal (nat (YearFromDay m))"
    using y by (simp add: String_def)
  have mo: "0 \<le> MonthFromDay m" "MonthFromDay m \<le> 11" by (rule MonthFromDay_range)+
  then show "padStart2 (String (Some (MonthFromDay m + 1))) = two_digits (nat (MonthFromDay m + 1))"
    by (simp add: String_def padStart2_decimal)
  have "DaysInMonth (YearFromDay m) (MonthFromDay m) \<le> 31" by (simp add: DaysInMonth_def)
  then have d: "1 \<le> DateFromDay m" "DateFromDay m \<le> 31"
    using DateFromDay_range[of m] by simp_all
  then show "padStart2 (String (Some (DateFromDay m))) = two_digits (nat (DateFromDay m))"
    by (simp add: String_def padStart2_decimal)
qed

lemma computeWeek_core:
  assumes "DayFromYear 0 \<le> monday_of (Day (t + IST_OFFSET))"
    and "Day (t + IST_OFFSET) < 100000000"
  shows "weekStartId (computeWeekStartIST legacy (Some t) None)
           = week_id_of (monday_of (Day (t + IST_OFFSET)))"
    and "dayDates (computeWeekStartIST legacy (Some t) None) ! 0
           = iso_of (monday_of (Day (t + IST_OFFSET)))"
proof -
  define t1 where "t1 = t + IST_OFFSET"
  define D where "D = Day t1"
  define M where "M = monday_of D"
  define off where "off = (if WeekDay D = 0 then - 6 else - (WeekDay D - 1))"
  have M_off: "M = D + off" by (simp add: M_def off_def monday_of_def)
  have MD: "D - 6 \<le> M" "M \<le> D" using monday_of_bounds[of D] by (simp_all add: M_def)
  have lo: "DayFromYear 0 \<le> M" and hi: "D < 100000000"
    using assms by (simp_all add: M_def D_def t1_def)
  have lo': "- 100000000 \<le> M" using lo by (simp add: DayFromYear_0)
  have ist: "TimeClip t1 = Some t1"
    using lo' hi MD by (intro TimeClip_days) (simp_all add: D_def)
  define tm where "tm = M * msPerDay + TimeWithinDay t1"
  have mon: "setUTCDate (Some (DateFromDay D + off)) (Some t1) = Some tm"
    unfolding tm_def M_off D_def
    using lo' hi MD by (intro setUTCDate_shift) (simp_all add: D_def M_off)
  have Dtm: "Day tm = M" unfolding tm_def by (rule Day_make[OF twd_bounds])
  have Mhi: "M < 100000000" using MD hi by simp
  have day0: "setUTCDate (Some (DateFromDay M + 0)) (Some tm) = Some tm"
  proof -
    have "setUTCDate (Some (DateFromDay (Day tm) + 0)) (Some tm)
            = Some ((Day tm + 0) * msPerDay + TimeWithinDay tm)"
      using lo' Mhi by (intro setUTCDate_shift) (simp_all add: Dtm)
    then show ?thesis using day_split[of tm] by (simp add: Dtm)
  qed
  have mondayDate: "setUTCDate
             (case (getUTCDate (Some t1), map_option (\<lambda>w. if w = 0 then - 6 else - (w - 1)) (getUTCDay (Some t1))) of
                (Some d, Some off) \<Rightarrow> Some (d + off) | _ \<Rightarrow> None) (Some t1) = Some tm"
    using mon unfolding off_def D_def
    by (cases "WeekDay (Day t1) = 0") (simp_all add: getUTCDate_def getUTCDay_def)
  have w: "weekStartId (computeWeekStartIST legacy (Some t) None)
      = String (getUTCFullYear (Some tm))
        @ padStart2 (String (map_option (\<lambda>m. m + 1) (getUTCMonth (Some tm))))
        @ padStart2 (String (getUTCDate (Some tm)))"
    unfolding computeWeekStartIST_def Let_def
    using ist mondayDate by (simp add: t1_def)
  have dd: "dayDates (computeWeekStartIST legacy (Some t) None) ! 0
      = dayDate_of (day_of_week (Some tm) 0)"
    unfolding computeWeekStartIST_def Let_def
    using ist mondayDate by (simp add: t1_def)
  have d0: "day_of_week (Some tm) 0 = Some tm"
    using day0 by (simp add: day_of_week_def getUTCDate_def Dtm)
  show "weekStartId (computeWeekStartIST legacy (Some t) None)
           = week_id_of (monday_of (Day (t + IST_OFFSET)))"
    unfolding w using String_fields[OF lo]
    by (simp add: getUTCFullYear_def getUTCMonth_def getUTCDate_def Dtm week_id_of_def
          M_def D_def t1_def)
  show "dayDates (computeWeekStartIST legacy (Some t) None) ! 0
           = iso_of (monday_of (Day (t + IST_OFFSET)))"
    unfolding dd d0 dayDate_of_def using String_fields[OF lo]
    by (simp add: getUTCFullYear_def getUTCMonth_def getUTCDate_def Dtm iso_of_def
          M_def D_def t1_def)
qed

lemma Day_ge: "k * msPerDay \<le> t \<Longrightarrow> k \<le> Day t"
proof -
  assume a: "k * msPerDay \<le> t"
  have "Day (k * msPerDay) \<le> Day t"
    unfolding Day_def using a msPerDay_pos by (intro zdiv_mono1) simp_all
  moreover have "Day (k * msPerDay + 0) = k" using msPerDay_pos by (intro Day_make) simp_all
  ultimately show ?thesis by simp
qed

lemma Day_lt: "t < k * msPerDay \<Longrightarrow> Day t < k"
proof (rule ccontr)
  assume a: "t < k * msPerDay" and "\<not> Day t < k"
  then have "k \<le> Day t" by simp
  then have "k * msPerDay \<le> Day t * msPerDay" using msPerDay_pos by simp
  also have "\<dots> \<le> t" using day_split[of t] twd_bounds(1)[of t] by linarith
  finally show False using a by simp
qed

lemma Date_UTC_bounds:
  "Date_UTC 1000 0 7 = (DayFromYear 1000 + 6) * msPerDay"
  "Date_UTC 9999 11 31 = (DayFromYear 10000 - 1) * msPerDay"
proof -
  show "Date_UTC 1000 0 7 = (DayFromYear 1000 + 6) * msPerDay"
    by (simp add: Date_UTC_def MakeDay_def month_start_def)
  have "DayFromYear (9999 + 1) = DayFromYear 9999 + 365"
    unfolding DayFromYear_step by (simp add: InLeapYear_def)
  then have "DayFromYear 9999 = DayFromYear 10000 - 365" by simp
  then show "Date_UTC 9999 11 31 = (DayFromYear 10000 - 1) * msPerDay"
    by (simp add: Date_UTC_def MakeDay_def month_start_def InLeapYear_def)
qed

lemma override_unfold:
  "ov \<noteq> [] \<Longrightarrow> computeWeekStartIST legacy date0 (Some ov)
     = computeWeekStartIST legacy (Date_of_override legacy ov) None"
  by (simp add: computeWeekStartIST_def)

lemma Date_of_iso:
  assumes "DayFromYear 1000 \<le> m" "m < DayFromYear 10000"
  shows "Date_of_override legacy (iso_of m) = Some (m * msPerDay)"
proof -
  have y: "1000 \<le> YearFromDay m" "YearFromDay m < 10000" using YearFromDay_range[OF assms] .
  have mo: "0 \<le> MonthFromDay m" "MonthFromDay m \<le> 11" by (rule MonthFromDay_range)+
  have d: "1 \<le> DateFromDay m" "DateFromDay m \<le> DaysInMonth (YearFromDay m) (MonthFromDay m)"
    by (rule DateFromDay_range)+
  have "parse_date_only (iso_of m)
          = Some (int (nat (YearFromDay m)), int (nat (MonthFromDay m + 1)), int (nat (DateFromDay m)))"
    unfolding iso_of_def using y mo d by (intro parse_formatted) simp_all
  then have p: "parse_date_only (iso_of m) = Some (YearFromDay m, MonthFromDay m + 1, DateFromDay m)"
    using y mo d by simp
  have "MakeDay (YearFromDay m) (MonthFromDay m) (DateFromDay m + 0) = m + 0"
    by (rule MakeDay_inverse)
  then have mk: "MakeDay (YearFromDay m) (MonthFromDay m) (DateFromDay m) = m" by simp
  have "Day (m * msPerDay + 0) = m" using msPerDay_pos by (intro Day_make) simp_all
  then have "TimeClip (m * msPerDay) = Some (m * msPerDay)"
    using assms by (intro TimeClip_days) (simp_all add: DayFromYear_1000 DayFromYear_10000)
  then show ?thesis by (simp add: Date_of_override_def p mk)
qed

lemma iso_of_nonempty: "iso_of m \<noteq> []"
  by (simp add: iso_of_def two_digits_def)

lemma week_of_2025_08_13:
  "weekStartId (computeWeekStartIST legacy (Some 1755086400000) None) = ''20250811''"
proof -
  have D: "Day (1755086400000 + IST_OFFSET) = 20313"
    by (simp add: Day_def IST_OFFSET_def msPerDay_def)
  have M: "monday_of 20313 = 20311"
    by (simp add: monday_of_def WeekDay_def)
  have y25: "DayFromYear 2025 = 20089" and y26: "DayFromYear 2026 = 20454"
    by (simp_all add: DayFromYear_def)
  have Y: "YearFromDay 20311 = 2025"
    by (rule YearFromDay_eq) (simp_all add: y25 y26)
  have W: "DayWithinYear 20311 = 222" by (simp add: DayWithinYear_def Y y25)
  have L: "leapDay 20311 = 0" by (simp add: leapDay_def Y InLeapYear_def)
  have Mo: "MonthFromDay 20311 = 7" by (simp add: MonthFromDay_def W L)
  have Da: "DateFromDay 20311 = 11" by (simp add: DateFromDay_def W L Mo)
  have dec: "decimal 2025 = ''2025''"
    by (simp add: decimal_four digit_char_def)
  have id: "week_id_of 20311 = ''20250811''"
    by (simp add: week_id_of_def Y Mo Da dec two_digits_def digit_char_def)
  have "weekStartId (computeWeekStartIST legacy (Some 1755086400000) None)
          = week_id_of (monday_of (Day (1755086400000 + IST_OFFSET)))"
    by (rule computeWeek_core(1)) (simp_all add: D M DayFromYear_0)
  then show ?thesis by (simp add: D M id)
qed

lemma week_of_10000_01_10:
  "weekStartId (computeWeekStartIST legacy (Some 253403078400000) None) = ''100000110''"
  "dayDates (computeWeekStartIST legacy (Some 253403078400000) None) ! 0 = ''10000-01-10''"
proof -
  have D: "Day (253403078400000 + IST_OFFSET) = 2932906"
    by (simp add: Day_def IST_OFFSET_def msPerDay_def)
  have M: "monday_of 2932906 = 2932906"
    by (simp add: monday_of_def WeekDay_def)
  have y1: "DayFromYear 10001 = 2933263"
    by (simp add: DayFromYear_def)
  have Y: "YearFromDay 2932906 = 10000"
    by (rule YearFromDay_eq) (simp_all add: DayFromYear_10000 y1)
  have W: "DayWithinYear 2932906 = 9" by (simp add: DayWithinYear_def Y DayFromYear_10000)
  have Mo: "MonthFromDay 2932906 = 0" by (simp add: MonthFromDay_def W)
  have Da: "DateFromDay 2932906 = 10" by (simp add: DateFromDay_def W Mo)
  have dec: "decimal 10000 = ''10000''"
    by (simp add: decimal.simps digit_char_def)
  have id: "week_id_of 2932906 = ''100000110''"
    by (simp add: week_id_of_def Y Mo Da dec two_digits_def digit_char_def)
  have iso: "iso_of 2932906 = ''10000-01-10''"
    by (simp add: iso_of_def Y Mo Da dec two_digits_def digit_char_def)
  have c: "DayFromYear 0 \<le> monday_of (Day (253403078400000 + IST_OFFSET))"
    "Day (253403078400000 + IST_OFFSET) < 100000000"
    by (simp_all add: D M DayFromYear_0)
  show "weekStartId (computeWeekStartIST legacy (Some 253403078400000) None) = ''100000110''"
    using computeWeek_core(1)[OF c, of legacy] by (simp add: D M id)
  show "dayDates (computeWeekStartIST legacy (Some 253403078400000) None) ! 0 = ''10000-01-10''"
    using computeWeek_core(2)[OF c, of legacy] by (simp add: D M iso)
qed

lemma five_digit_year_unparsed: "parse_date_only ''10000-01-10'' = None"
  by (simp add: parse_date_only_def read_year_def read_field_def digit_val_def eval_nat_numeral)

lemma week_of_invalid_date:
  "weekStartId (computeWeekStartIST legacy None None) = ''NaNNaNNaN''"
  by (simp add: computeWeekStartIST_def getUTCDay_def getUTCDate_def getUTCMonth_def
        getUTCFullYear_def setUTCDate_def String_def padStart2_def)

section \<open>Week identity round trip\<close>

text \<open>
  Claim C9, as the code has it. For every instant \<open>now\<close> from 7 January 1000 to
  31 December 9999 (UTC), the
  first of the \<^verbatim>\<open>dayDates\<close> of \<^verbatim>\<open>computeWeekStartIST(now)\<close>, given back as the override
  date, yields the same \<^verbatim>\<open>weekStartId\<close>. In that range the Monday has a year of four
  digits, so the override string is in the standard's date format; the result does not
  depend on how the engine parses other strings (\<open>legacy\<close> is arbitrary).
\<close>

theorem week_identity_round_trip:
  assumes "Date_UTC 1000 0 7 \<le> now" and "now < Date_UTC 9999 11 31"
  shows "weekStartId (computeWeekStartIST legacy (Some now)
            (Some (dayDates (computeWeekStartIST legacy (Some now) None) ! 0)))
         = weekStartId (computeWeekStartIST legacy (Some now) None)"
proof -
  define D where "D = Day (now + IST_OFFSET)"
  define M where "M = monday_of D"
  have off: "0 \<le> IST_OFFSET" "IST_OFFSET < msPerDay" by (simp_all add: IST_OFFSET_def msPerDay_def)
  have "(DayFromYear 1000 + 6) * msPerDay \<le> now + IST_OFFSET"
    using assms(1) off(1) by (simp add: Date_UTC_bounds)
  then have Dlo: "DayFromYear 1000 + 6 \<le> D" unfolding D_def by (rule Day_ge)
  have "now + IST_OFFSET < (DayFromYear 10000 - 1) * msPerDay + msPerDay"
    using assms(2) off(2) by (simp add: Date_UTC_bounds)
  then have "now + IST_OFFSET < DayFromYear 10000 * msPerDay" by (simp add: algebra_simps)
  then have Dhi: "D < DayFromYear 10000" unfolding D_def by (rule Day_lt)
  have Mlo: "DayFromYear 1000 \<le> M" and Mhi: "M < DayFromYear 10000"
    using monday_of_bounds[of D] Dlo Dhi by (simp_all add: M_def)
  have M0: "DayFromYear 0 \<le> M" and D8: "D < 100000000" and M8: "M < 100000000"
    using Mlo Mhi Dhi by (simp_all add: DayFromYear_0 DayFromYear_1000 DayFromYear_10000)
  have first: "weekStartId (computeWeekStartIST legacy (Some now) None) = week_id_of M"
    "dayDates (computeWeekStartIST legacy (Some now) None) ! 0 = iso_of M"
    using computeWeek_core[of now legacy] M0 D8 by (simp_all add: M_def D_def)
  have DM: "Day (M * msPerDay + IST_OFFSET) = M" by (rule Day_make[OF off])
  have MM: "monday_of M = M" unfolding M_def by (rule monday_of_monday[OF WeekDay_monday_of])
  have "weekStartId (computeWeekStartIST legacy (Some (M * msPerDay)) None)
          = week_id_of (monday_of (Day (M * msPerDay + IST_OFFSET)))"
    by (rule computeWeek_core(1)) (simp_all add: DM MM M0 M8)
  then have second: "weekStartId (computeWeekStartIST legacy (Some (M * msPerDay)) None) = week_id_of M"
    by (simp add: DM MM)
  show ?thesis
    unfolding first override_unfold[OF iso_of_nonempty] Date_of_iso[OF Mlo Mhi] second ..
qed

theorem week_identity_round_trip_witness:
  "Date_UTC 1000 0 7 \<le> 1755086400000 \<and> 1755086400000 < Date_UTC 9999 11 31 \<and>
   weekStartId (computeWeekStartIST (\<lambda>s. None) (Some 1755086400000)
       (Some (dayDates (computeWeekStartIST (\<lambda>s. None) (Some 1755086400000) None) ! 0)))
     = weekStartId (computeWeekStartIST (\<lambda>s. None) (Some 1755086400000) None) \<and>
   weekStartId (computeWeekStartIST (\<lambda>s. None) (Some 1755086400000) None) = ''20250811''"
proof -
  have lo: "Date_UTC 1000 0 7 \<le> 1755086400000"
    by (simp add: Date_UTC_bounds DayFromYear_1000 msPerDay_def)
  have hi: "1755086400000 < Date_UTC 9999 11 31"
    by (simp add: Date_UTC_bounds DayFromYear_10000 msPerDay_def)
  from week_identity_round_trip[OF lo hi, of "\<lambda>s. None"] lo hi week_of_2025_08_13[of "\<lambda>s. None"]
  show ?thesis by (intro conjI)
qed

text \<open>
  Claim C9 as stated fails for an instant whose week starts in a year of five digits.
  At 10 January 10000, 00:00 UTC (a Monday), \<^verbatim>\<open>dayDates[0]\<close> is \<^verbatim>\<open>10000-01-10\<close>; with the
  suffix it is not in the date time format, and on an engine that knows no other format
  the override date is invalid: the week id is \<^verbatim>\<open>NaNNaNNaN\<close>, not \<^verbatim>\<open>100000110\<close>.
\<close>

theorem week_round_trip_year_10000_counterexample:
  "weekStartId (computeWeekStartIST (\<lambda>s. None) (Some 253403078400000) None) = ''100000110'' \<and>
   weekStartId (computeWeekStartIST (\<lambda>s. None) (Some 253403078400000)
       (Some (dayDates (computeWeekStartIST (\<lambda>s. None) (Some 253403078400000) None) ! 0)))
     = ''NaNNaNNaN'' \<and>
   weekStartId (computeWeekStartIST (\<lambda>s. None) (Some 253403078400000)
       (Some (dayDates (computeWeekStartIST (\<lambda>s. None) (Some 253403078400000) None) ! 0)))
     \<noteq> weekStartId (computeWeekStartIST (\<lambda>s. None) (Some 253403078400000) None)"
proof -
  have o: "Date_of_override (\<lambda>s. None) ''10000-01-10'' = None"
    by (simp add: Date_of_override_def five_digit_year_unparsed)
  have "computeWeekStartIST (\<lambda>s. None) (Some 253403078400000) (Some ''10000-01-10'')
          = computeWeekStartIST (\<lambda>s. None) None None"
    using override_unfold[of "''10000-01-10''" "\<lambda>s. None" "Some 253403078400000"] by (simp add: o)
  then show ?thesis
    by (simp add: week_of_10000_01_10 week_of_invalid_date)
qed

section \<open>Further properties\<close>

text \<open>
  Property X1. In every state \<^verbatim>\<open>getData\<close> returns the empty document and \<^verbatim>\<open>saveData\<close>
  returns \<^verbatim>\<open>false\<close> and changes nothing, so the users and the queue the store reads are
  empty.
\<close>

theorem wrapper_never_reaches_web_storage:
  "getData s = empty_doc \<and> saveData data s = (False, s) \<and>
   getUsers s = [] \<and> getSyncQueue s = []"
  by simp

text \<open>
  Property X2. When each of the \<open>maxRetries\<close> attempts of a call is answered with a
  status outside 200 to 299 and a JSON message, \<^verbatim>\<open>fetchWithRetry\<close> makes all of them and
  then throws the message of the last.
\<close>

theorem all_rejected_exhausts_retries:
  assumes "0 < maxRetries"
    and "\<forall>k < maxRetries. \<exists>status errorData.
             fst (fetch req (((\<lambda>e. snd (fetch req e)) ^^ k) e)) = Response status (Some errorData)
             \<and> \<not> (200 \<le> status \<and> status \<le> 299)
             \<and> message errorData = Some (msg k) \<and> msg k \<noteq> []"
  shows "fetchWithRetry fetch req maxRetries e =
           (Inl (Error (msg (maxRetries - 1))), ((\<lambda>e. snd (fetch req e)) ^^ maxRetries) e)"
proof -
  define E where "E k = ((\<lambda>e. snd (fetch req e)) ^^ k) e" for k
  have ES: "E (Suc k) = snd (fetch req (E k))" for k by (simp add: E_def)
  have a: "\<forall>k < maxRetries. \<exists>status errorData.
             fst (fetch req (E k)) = Response status (Some errorData)
             \<and> \<not> (200 \<le> status \<and> status \<le> 299)
             \<and> message errorData = Some (msg k) \<and> msg k \<noteq> []"
    using assms(2) by (simp add: E_def)
  have "retry_from fetch req maxRetries 0 (E 0) = (Inl (Error (msg (maxRetries - 1))), E maxRetries)"
    by (rule all_rejected_from[where E = E and msg = msg and fetch = fetch and req = req,
          OF a ES assms(1)])
  then show ?thesis by (simp add: fetchWithRetry_def E_def)
qed

theorem all_rejected_exhausts_retries_witness:
  "(0::nat) < defaultMaxRetries \<and>
   fetchWithRetry scripted (POST ''/users/add'' (users_add_body ''A'' ''1234'' False)) defaultMaxRetries
      [user_exists, user_exists, user_exists, accepted]
     = (Inl (Error ''User already exists''), [accepted])"
proof -
  let ?req = "POST ''/users/add'' (users_add_body ''A'' ''1234'' False)"
  let ?e = "[user_exists, user_exists, user_exists, accepted]"
  have p: "0 < defaultMaxRetries" by (simp add: defaultMaxRetries_def)
  have k: "k < defaultMaxRetries \<Longrightarrow> k = 0 \<or> k = 1 \<or> k = 2" for k
    by (auto simp: defaultMaxRetries_def)
  have h: "\<forall>k < defaultMaxRetries. \<exists>status errorData.
             fst (scripted ?req (((\<lambda>e. snd (scripted ?req e)) ^^ k) ?e)) = Response status (Some errorData)
             \<and> \<not> (200 \<le> status \<and> status \<le> 299)
             \<and> message errorData = Some ((\<lambda>k. ''User already exists'') k)
             \<and> (\<lambda>k. ''User already exists'') k \<noteq> []"
  proof (intro allI impI)
    fix k assume "k < defaultMaxRetries"
    from k[OF this] show "\<exists>status errorData.
             fst (scripted ?req (((\<lambda>e. snd (scripted ?req e)) ^^ k) ?e)) = Response status (Some errorData)
             \<and> \<not> (200 \<le> status \<and> status \<le> 299)
             \<and> message errorData = Some ((\<lambda>k. ''User already exists'') k)
             \<and> (\<lambda>k. ''User already exists'') k \<noteq> []"
      by (auto simp: scripted_def user_exists_def numeral_2_eq_2)
  qed
  have "((\<lambda>e. snd (scripted ?req e)) ^^ defaultMaxRetries) ?e = [accepted]"
    by (simp add: defaultMaxRetries_def numeral_3_eq_3 scripted_def)
  with all_rejected_exhausts_retries[where msg = "\<lambda>k. ''User already exists''"
      and fetch = scripted and req = ?req and e = ?e, OF p h] p
  show ?thesis by simp
qed

end
